theory Spec2Isabelle
  imports Complex_Main "HOL-Library.Multiset" "HOL-Library.AList"
begin

section \<open>Conventions of the embedding\<close>

text \<open>
  The repository holds two Go programs: \<open>TF/internal/ml\<close> (sparse rating vectors, similarity
  metrics, item- and user-based recommenders) and \<open>TP/algorithms\<close> (similarity matrices over
  Steam users).

  \<^item> \<open>float64\<close> is modelled by \<open>real\<close>: rounding, infinities and NaN are outside the model.
    A floating-point division by zero has no real value; \<open>fdiv\<close> makes it the error
    \<open>NotANumber\<close>, so that a definition returns \<open>Inr v\<close> only if every division it executes has a
    non-zero denominator.
  \<^item> A Go \<open>map[int]V\<close> is an association list \<open>(int \<times> V) list\<close>. A well-formed map has
    distinct keys. \<open>range\<close> visits the entries in list order; Go leaves that order open, and
    the order of the list stands for whichever order the runtime picks. \<open>m[k] = v\<close> is
    \<open>AList.update k v m\<close>, the two-valued lookup \<open>v, ok := m[k]\<close> is \<open>map_of m k\<close>, the
    one-valued lookup \<open>m[k]\<close> is \<open>get m k\<close> (the zero value for a missing key).
  \<^item> A run-time panic is a value \<open>Inl e\<close> of the result type \<open>error + 'a\<close>.
  \<^item> A Go \<open>int\<close> is 64 bits wide (its width on the 64-bit platforms) and is modelled by
    \<open>int\<close>. Lengths, indices and counters stay in range. The products that compute the
    channel capacity of the concurrent matrix builders can leave it: there the model wraps
    around with \<open>wrap64\<close>, and divides as Go does, truncating towards zero (\<open>quot\<close>).
\<close>

datatype error =
    IndexOutOfRange          \<comment> \<open>index out of range\<close>
  | SliceBoundsOutOfRange    \<comment> \<open>slice bounds out of range\<close>
  | IntegerDivideByZero      \<comment> \<open>integer divide by zero\<close>
  | MakeChanSizeOutOfRange   \<comment> \<open>makechan: size out of range\<close>
  | NotANumber               \<comment> \<open>float64 division by zero: no real result\<close>

definition bind_r :: "error + 'a \<Rightarrow> ('a \<Rightarrow> error + 'b) \<Rightarrow> error + 'b" where
  "bind_r r f = (case r of Inl e \<Rightarrow> Inl e | Inr x \<Rightarrow> f x)"

definition fdiv :: "real \<Rightarrow> real \<Rightarrow> error + real" where
  "fdiv x y = (if y = 0 then Inl NotANumber else Inr (x / y))"

definition wrap64 :: "int \<Rightarrow> int" where
  "wrap64 x = (x + 2 ^ 63) mod 2 ^ 64 - 2 ^ 63"

definition quot :: "int \<Rightarrow> int \<Rightarrow> int" where
  "quot a b = sgn a * sgn b * (\<bar>a\<bar> div \<bar>b\<bar>)"

definition get :: "(int \<times> real) list \<Rightarrow> int \<Rightarrow> real" where
  "get m k = (case map_of m k of Some v \<Rightarrow> v | None \<Rightarrow> 0)"

definition keys :: "(int \<times> 'v) list \<Rightarrow> int set" where
  "keys m = fst ` set m"

definition wf_map :: "(int \<times> 'v) list \<Rightarrow> bool" where
  "wf_map m = distinct (map fst m)"

section \<open>TF/internal/ml/similarity.go\<close>

type_synonym vec = "(int \<times> real) list"

text \<open>\<open>Cosine\<close>. \<open>Cosine_sums\<close> is the two loops: one over \<open>a\<close> accumulates \<open>dot\<close>
  and \<open>suma\<close>, one over \<open>b\<close> accumulates \<open>sumb\<close>; \<open>Cosine\<close> adds the guard and the
  division.\<close>

definition Cosine_sums :: "vec \<Rightarrow> vec \<Rightarrow> real \<times> real \<times> real" where
  "Cosine_sums a b =
     (let (dot, suma) =
            fold (\<lambda>(k, va) (dot, suma).
                    ((case map_of b k of Some vb \<Rightarrow> dot + va * vb | None \<Rightarrow> dot),
                     suma + va * va)) a (0, 0);
          sumb = fold (\<lambda>(k, vb) sumb. sumb + vb * vb) b 0
      in (dot, suma, sumb))"

definition Cosine :: "vec \<Rightarrow> vec \<Rightarrow> error + real" where
  "Cosine a b =
     (let (dot, suma, sumb) = Cosine_sums a b
      in if suma = 0 \<or> sumb = 0 then Inr 0
         else fdiv dot (sqrt suma * sqrt sumb))"

text \<open>\<open>Pearson\<close>, in the order of the source: \<open>Pearson_common\<close> counts the common keys
  (below two of them the result is 0), \<open>Pearson_means\<close> is the second loop and the two
  divisions by \<open>float64(common)\<close>, \<open>Pearson_centred\<close> is the third loop.\<close>

definition Pearson_common :: "vec \<Rightarrow> vec \<Rightarrow> nat" where
  "Pearson_common a b =
     fold (\<lambda>(k, va) common.
             (case map_of b k of Some vb \<Rightarrow> common + 1 | None \<Rightarrow> common)) a 0"

definition Pearson_means :: "vec \<Rightarrow> vec \<Rightarrow> nat \<Rightarrow> error + (real \<times> real)" where
  "Pearson_means a b common =
     (let (sumA, sumB) =
            fold (\<lambda>(k, va) (sumA, sumB).
                    (case map_of b k of
                       Some vb \<Rightarrow> (sumA + get a k, sumB + get b k)
                     | None \<Rightarrow> (sumA, sumB))) a (0, 0)
      in bind_r (fdiv sumA (real common)) (\<lambda>meanA.
         bind_r (fdiv sumB (real common)) (\<lambda>meanB. Inr (meanA, meanB))))"

definition Pearson_centred :: "vec \<Rightarrow> vec \<Rightarrow> real \<Rightarrow> real \<Rightarrow> real \<times> real \<times> real" where
  "Pearson_centred a b meanA meanB =
     fold (\<lambda>(k, va) (num, denA, denB).
             (case map_of b k of
                None \<Rightarrow> (num, denA, denB)
              | Some vb \<Rightarrow>
                  (let da = get a k - meanA; db = vb - meanB
                   in (num + da * db, denA + da * da, denB + db * db))))
          a (0, 0, 0)"

definition Pearson :: "vec \<Rightarrow> vec \<Rightarrow> error + real" where
  "Pearson a b =
     (let common = Pearson_common a b
      in if common < 2 then Inr 0
         else bind_r (Pearson_means a b common) (\<lambda>(meanA, meanB).
                let (num, denA, denB) = Pearson_centred a b meanA meanB
                in if denA = 0 \<or> denB = 0 then Inr 0
                   else fdiv num (sqrt denA * sqrt denB)))"

text \<open>\<open>Jaccard\<close>: \<open>union\<close> is a \<open>map[int]struct{}\<close>, here a map to \<open>unit\<close>.\<close>

definition Jaccard_counts :: "vec \<Rightarrow> vec \<Rightarrow> nat \<times> (int \<times> unit) list" where
  "Jaccard_counts a b =
     (let (inter, union) =
            fold (\<lambda>(k, va) (inter, union).
                    (case map_of b k of Some vb \<Rightarrow> inter + 1 | None \<Rightarrow> inter,
                     AList.update k () union)) a (0, []);
          union = fold (\<lambda>(k, vb) union. AList.update k () union) b union
      in (inter, union))"

definition Jaccard :: "vec \<Rightarrow> vec \<Rightarrow> error + real" where
  "Jaccard a b =
     (if length a = 0 \<and> length b = 0 then Inr 0
      else
        let (inter, union) = Jaccard_counts a b
        in if length union = 0 then Inr 0
           else fdiv (real inter) (real (length union)))"

section \<open>TP/algorithms: users and their metrics\<close>

record GameInteraction =
  PlaytimeNorm :: real
  Rating :: real

record User =
  SteamID :: string
  Games :: "(int \<times> GameInteraction) list"

text \<open>\<open>cosineSimilarity\<close> (cosine.go): each game contributes the two-component vector
  \<open>[playtime_norm, rating]\<close>; the inner loops over \<open>k = 0, 1\<close> are written out.
  \<open>cosineSimilarity_sums\<close> is the loops, \<open>cosineSimilarity\<close> the square roots, the guard and
  the division.\<close>

definition cosineSimilarity_sums :: "User \<Rightarrow> User \<Rightarrow> real \<times> real \<times> real" where
  "cosineSimilarity_sums u1 u2 =
     (let (dotProduct, norm1) =
            fold (\<lambda>(appID, game1) (dotProduct, norm1).
                    ((case map_of (Games u2) appID of
                        Some game2 \<Rightarrow>
                          dotProduct + PlaytimeNorm game1 * PlaytimeNorm game2
                                     + Rating game1 * Rating game2
                      | None \<Rightarrow> dotProduct),
                     norm1 + PlaytimeNorm game1 * PlaytimeNorm game1
                           + Rating game1 * Rating game1)) (Games u1) (0, 0);
          norm2 = fold (\<lambda>(appID, game2) norm2.
                    norm2 + PlaytimeNorm game2 * PlaytimeNorm game2
                          + Rating game2 * Rating game2) (Games u2) 0
      in (dotProduct, norm1, norm2))"

definition cosineSimilarity :: "User \<Rightarrow> User \<Rightarrow> error + real" where
  "cosineSimilarity u1 u2 =
     (let (dotProduct, norm1, norm2) = cosineSimilarity_sums u1 u2;
          norm1 = sqrt norm1;
          norm2 = sqrt norm2
      in if norm1 = 0 \<or> norm2 = 0 then Inr 0
         else fdiv dotProduct (norm1 * norm2))"

text \<open>\<open>pearsonCorrelation\<close> (pearson.go): the common games are collected in a slice
  (\<open>pearson_commonGames\<close>), then two value slices with two entries per common game
  (\<open>pearson_values\<close>), their means (\<open>pearson_means\<close>) and the centred sums
  (\<open>pearson_centred\<close>).\<close>

definition game_of :: "User \<Rightarrow> int \<Rightarrow> GameInteraction" where
  "game_of u appID =
     (case map_of (Games u) appID of
        Some g \<Rightarrow> g
      | None \<Rightarrow> \<lparr>PlaytimeNorm = 0, Rating = 0\<rparr>)"

definition pearson_commonGames :: "User \<Rightarrow> User \<Rightarrow> int list" where
  "pearson_commonGames u1 u2 =
     fold (\<lambda>(appID, game1) commonGames.
             (case map_of (Games u2) appID of
                Some game2 \<Rightarrow> commonGames @ [appID]
              | None \<Rightarrow> commonGames)) (Games u1) []"

definition pearson_values :: "User \<Rightarrow> User \<Rightarrow> int list \<Rightarrow> real list \<times> real list" where
  "pearson_values u1 u2 commonGames =
     fold (\<lambda>appID (values1, values2).
             (let game1 = game_of u1 appID; game2 = game_of u2 appID
              in (values1 @ [PlaytimeNorm game1, Rating game1],
                  values2 @ [PlaytimeNorm game2, Rating game2])))
          commonGames ([], [])"

definition pearson_means :: "real list \<Rightarrow> real list \<Rightarrow> error + (real \<times> real)" where
  "pearson_means values1 values2 =
     (let n = length values1;
          (sum1, sum2) =
            fold (\<lambda>i (sum1, sum2). (sum1 + values1 ! i, sum2 + values2 ! i)) [0..<n] (0, 0)
      in bind_r (fdiv sum1 (real n)) (\<lambda>mean1.
         bind_r (fdiv sum2 (real n)) (\<lambda>mean2. Inr (mean1, mean2))))"

definition pearson_centred ::
  "real list \<Rightarrow> real list \<Rightarrow> real \<Rightarrow> real \<Rightarrow> real \<times> real \<times> real" where
  "pearson_centred values1 values2 mean1 mean2 =
     fold (\<lambda>i (numerator, denom1, denom2).
             (let diff1 = values1 ! i - mean1;
                  diff2 = values2 ! i - mean2
              in (numerator + diff1 * diff2,
                  denom1 + diff1 * diff1,
                  denom2 + diff2 * diff2)))
          [0..<length values1] (0, 0, 0)"

definition pearsonCorrelation :: "User \<Rightarrow> User \<Rightarrow> error + real" where
  "pearsonCorrelation u1 u2 =
     (let commonGames = pearson_commonGames u1 u2
      in if length commonGames < 2 then Inr 0
         else
           let (values1, values2) = pearson_values u1 u2 commonGames
           in if length values1 = 0 then Inr 0
              else bind_r (pearson_means values1 values2) (\<lambda>(mean1, mean2).
                     let (numerator, denom1, denom2) =
                           pearson_centred values1 values2 mean1 mean2
                     in if denom1 = 0 \<or> denom2 = 0 then Inr 0
                        else
                          let denominator = sqrt (denom1 * denom2)
                          in if denominator = 0 then Inr 0
                             else fdiv numerator denominator))"

text \<open>\<open>jaccardIndex\<close> and \<open>JaccardWeighted\<close> (jaccard.go). \<open>union\<close> is an \<open>int\<close>.\<close>

definition jaccardIndex_union :: "User \<Rightarrow> User \<Rightarrow> int \<times> int" where
  "jaccardIndex_union u1 u2 =
     (let intersection =
            fold (\<lambda>(appID, game1) intersection.
                    (case map_of (Games u2) appID of
                       Some game2 \<Rightarrow> intersection + 1
                     | None \<Rightarrow> intersection)) (Games u1) 0;
          union = int (length (Games u1)) + int (length (Games u2)) - intersection
      in (intersection, union))"

definition jaccardIndex :: "User \<Rightarrow> User \<Rightarrow> error + real" where
  "jaccardIndex u1 u2 =
     (let (intersection, union) = jaccardIndex_union u1 u2
      in if union = 0 then Inr 0
         else fdiv (real_of_int intersection) (real_of_int union))"

definition JaccardWeighted_sums :: "User \<Rightarrow> User \<Rightarrow> real \<times> real" where
  "JaccardWeighted_sums u1 u2 =
     (let allGames = fold (\<lambda>(appID, game1) allGames. AList.update appID True allGames)
                          (Games u1) [];
          allGames = fold (\<lambda>(appID, game2) allGames. AList.update appID True allGames)
                          (Games u2) allGames
      in fold (\<lambda>(appID, present) (minSum, maxSum).
                 (let val1 = (case map_of (Games u1) appID of
                                Some game1 \<Rightarrow> PlaytimeNorm game1 + Rating game1
                              | None \<Rightarrow> 0);
                      val2 = (case map_of (Games u2) appID of
                                Some game2 \<Rightarrow> PlaytimeNorm game2 + Rating game2
                              | None \<Rightarrow> 0)
                  in if val1 < val2 then (minSum + val1, maxSum + val2)
                     else (minSum + val2, maxSum + val1)))
              allGames (0, 0))"

definition JaccardWeighted :: "User \<Rightarrow> User \<Rightarrow> error + real" where
  "JaccardWeighted u1 u2 =
     (let (minSum, maxSum) = JaccardWeighted_sums u1 u2
      in if maxSum = 0 then Inr 0 else fdiv minSum maxSum)"

section \<open>TP/algorithms: similarity matrices\<close>

text \<open>A matrix is a slice of rows. Reading or writing a cell outside the matrix panics in
  Go; \<open>set_cell\<close> and \<open>index\<close> make that a value.\<close>

type_synonym matrix = "real list list"

definition index :: "'a list \<Rightarrow> nat \<Rightarrow> error + 'a" where
  "index xs i = (if i < length xs then Inr (xs ! i) else Inl IndexOutOfRange)"

definition make_matrix :: "nat \<Rightarrow> matrix" where
  "make_matrix n = replicate n (replicate n 0)"

definition set_cell :: "matrix \<Rightarrow> nat \<Rightarrow> nat \<Rightarrow> real \<Rightarrow> error + matrix" where
  "set_cell M i j v =
     (if i < length M \<and> j < length (M ! i) then Inr (M[i := (M ! i)[j := v]])
      else Inl IndexOutOfRange)"

text \<open>The two assignments \<open>similarity[i][j] = sim; similarity[j][i] = sim\<close>, preceded by
  the call of the metric on \<open>users[i]\<close> and \<open>users[j]\<close>.\<close>

definition store_pair ::
  "(User \<Rightarrow> User \<Rightarrow> error + real) \<Rightarrow> User list \<Rightarrow> matrix \<Rightarrow> nat \<Rightarrow> nat \<Rightarrow> error + matrix" where
  "store_pair metric users M i j =
     bind_r (index users i) (\<lambda>ui.
     bind_r (index users j) (\<lambda>uj.
     bind_r (metric ui uj) (\<lambda>sim.
     bind_r (set_cell M i j sim) (\<lambda>M.
     set_cell M j i sim))))"








definition concurrent_matrix ::
  "(User \<Rightarrow> User \<Rightarrow> error + real) \<Rightarrow> User list \<Rightarrow> int \<Rightarrow> (nat \<times> nat) list
     \<Rightarrow> error + matrix" where
  "concurrent_matrix metric users numWorkers sched =
     (let n = length users;
          similarity = fold (\<lambda>i acc. bind_r acc (\<lambda>M. set_cell M i i 1))
                            [0..<n] (Inr (make_matrix n));
          totalComparisons = quot (wrap64 (int n * wrap64 (int n - 1))) 2;
          bufferSize = min totalComparisons (wrap64 (numWorkers * 100))
      in if bufferSize < 0 then Inl MakeChanSizeOutOfRange
         else fold (\<lambda>(i, j) acc. bind_r acc (\<lambda>M. store_pair metric users M i j))
                   sched similarity)"






section \<open>TF/internal/ml: the bounded top-N selector\<close>

text \<open>
  \<open>neighbor\<close> (its field \<open>id\<close> is \<open>id_nb\<close> here) and \<open>minHeap\<close> with its \<open>Less\<close> and
  \<open>Swap\<close> are the repository's; the methods \<open>Push\<close> and \<open>Pop\<close> of \<open>minHeap\<close> append
  a cell and remove the last one. \<open>heap_up\<close>, \<open>heap_down\<close>, \<open>heap_Push\<close> and \<open>heap_Pop\<close> are
  \<open>up\<close>, \<open>down\<close>, \<open>Push\<close> and \<open>Pop\<close> of Go's \<open>container/heap\<close>, which the repository
  calls; \<open>heap.Init\<close> is called on the empty heap only, where it does nothing, and the
  boolean that \<open>down\<close> returns is not used by \<open>Pop\<close>.
  In \<open>heap_up\<close> the parent index is \<open>(j - 1) / 2\<close>; for \<open>j = 0\<close> Go's truncating division
  gives \<open>0\<close>, and so does subtraction on \<open>nat\<close>. \<open>heap_Pop\<close> on an empty heap calls
  \<open>Swap(0, -1)\<close>, which panics.
\<close>

record neighbor =
  id_nb :: int
  score :: real

type_synonym minHeap = "neighbor list"

definition minHeap_Less :: "minHeap \<Rightarrow> nat \<Rightarrow> nat \<Rightarrow> bool" where
  "minHeap_Less h i j = (score (h ! i) < score (h ! j))"

definition minHeap_Swap :: "minHeap \<Rightarrow> nat \<Rightarrow> nat \<Rightarrow> minHeap" where
  "minHeap_Swap h i j = h[i := h ! j, j := h ! i]"

function heap_up :: "minHeap \<Rightarrow> nat \<Rightarrow> minHeap" where
  "heap_up h j =
     (let i = (j - 1) div 2
      in if i = j \<or> \<not> minHeap_Less h j i then h
         else heap_up (minHeap_Swap h i j) i)"
  by pat_completeness auto
termination
  by (relation "measure snd") auto

declare heap_up.simps [simp del]

function heap_down :: "minHeap \<Rightarrow> nat \<Rightarrow> nat \<Rightarrow> minHeap" where
  "heap_down h i n =
     (let j1 = 2 * i + 1
      in if j1 \<ge> n then h
         else
           let j = (if j1 + 1 < n \<and> minHeap_Less h (j1 + 1) j1 then j1 + 1 else j1)
           in if \<not> minHeap_Less h j i then h
              else heap_down (minHeap_Swap h i j) j n)"
  by pat_completeness auto
termination
  by (relation "measure (\<lambda>(h, i, n). n - i)") auto

declare heap_down.simps [simp del]

definition heap_Push :: "minHeap \<Rightarrow> neighbor \<Rightarrow> minHeap" where
  "heap_Push h x = heap_up (h @ [x]) (length (h @ [x]) - 1)"

definition heap_Pop :: "minHeap \<Rightarrow> error + (neighbor \<times> minHeap)" where
  "heap_Pop h =
     (if length h = 0 then Inl IndexOutOfRange
      else
        let n = length h - 1;
            h = minHeap_Swap h 0 n;
            h = heap_down h 0 n
        in Inr (last h, butlast h))"

text \<open>\<open>topNneighborsFromScores\<close>: the loop over the score map, then the loop that fills
  \<open>res\<close> from its last index down to 0 with the successive minima. \<open>n\<close> is a Go \<open>int\<close>.
  On a full heap the source reads \<open>(*h)[0]\<close>, which panics when the heap is empty.\<close>

fun topN_offer :: "(int \<times> real) list \<Rightarrow> int \<Rightarrow> minHeap \<Rightarrow> error + minHeap" where
  "topN_offer [] n h = Inr h"
| "topN_offer ((k, sc) # rest) n h =
     (if int (length h) < n
      then topN_offer rest n (heap_Push h \<lparr>id_nb = k, score = sc\<rparr>)
      else bind_r (index h 0) (\<lambda>h0.
             if sc > score h0
             then bind_r (heap_Pop h) (\<lambda>(x, h).
                    topN_offer rest n (heap_Push h \<lparr>id_nb = k, score = sc\<rparr>))
             else topN_offer rest n h))"

fun topN_drain :: "nat \<Rightarrow> neighbor list \<Rightarrow> minHeap \<Rightarrow> error + neighbor list" where
  "topN_drain 0 res h = Inr res"
| "topN_drain (Suc i) res h =
     bind_r (heap_Pop h) (\<lambda>(x, h). topN_drain i (res[i := x]) h)"

definition topNneighborsFromScores :: "(int \<times> real) list \<Rightarrow> int \<Rightarrow> error + neighbor list" where
  "topNneighborsFromScores scores n =
     bind_r (topN_offer scores n []) (\<lambda>h.
       topN_drain (length h) (replicate (length h) \<lparr>id_nb = 0, score = 0\<rparr>) h)"

section \<open>TF/internal/ml: dataset and recommenders\<close>

record Dataset =
  UserRatings :: "(int \<times> vec) list"
  Users :: int
  Movies :: int

record ItemScore =
  MovieID :: int
  Score :: real

text \<open>\<open>SimMetric\<close> is a Go \<open>int\<close> with three named values; any other value selects the
  default branch of \<open>simBetween\<close>.\<close>

type_synonym SimMetric = int

definition CosineSim :: SimMetric where "CosineSim = 0"
definition PearsonSim :: SimMetric where "PearsonSim = 1"
definition JaccardSim :: SimMetric where "JaccardSim = 2"

definition simBetween :: "vec \<Rightarrow> vec \<Rightarrow> SimMetric \<Rightarrow> error + real" where
  "simBetween a b metric =
     (if metric = CosineSim then Cosine a b
      else if metric = PearsonSim then Pearson a b
      else if metric = JaccardSim then Jaccard a b
      else Cosine a b)"

text \<open>Reading a missing key of a map of maps gives the nil map, which reads as empty.\<close>

definition row :: "(int \<times> vec) list \<Rightarrow> int \<Rightarrow> vec" where
  "row m k = (case map_of m k of Some v \<Rightarrow> v | None \<Rightarrow> [])"

definition BuildItemIndex :: "Dataset \<Rightarrow> (int \<times> vec) list" where
  "BuildItemIndex ds =
     fold (\<lambda>(u, items) itemIndex.
             fold (\<lambda>(itm, r) itemIndex.
                     (let itemIndex = (case map_of itemIndex itm of
                                         None \<Rightarrow> AList.update itm [] itemIndex
                                       | Some m \<Rightarrow> itemIndex)
                      in AList.update itm (AList.update u r (row itemIndex itm)) itemIndex))
                  items itemIndex)
          (UserRatings ds) []"

text \<open>\<open>topKFromMap\<close>. \<open>sort.Slice\<close> with the comparison \<open>Score > Score\<close> orders by
  descending score and promises nothing about equal scores; the model sorts stably, which
  is one of the orders the library may produce. \<open>top[:k]\<close> with a negative \<open>k\<close> panics.\<close>

definition topKFromMap :: "(int \<times> real) list \<Rightarrow> int \<Rightarrow> error + ItemScore list" where
  "topKFromMap scores k =
     (let top = fold (\<lambda>(m, sc) top. top @ [\<lparr>MovieID = m, Score = sc\<rparr>]) scores [];
          top = sort_key (\<lambda>x. - Score x) top
      in if int (length top) > k
         then (if k < 0 then Inl SliceBoundsOutOfRange else Inr (take (nat k) top))
         else Inr top)"

definition abs_f :: "real \<Rightarrow> real" where
  "abs_f a = (if a < 0 then - a else a)"

text \<open>The candidates of both item-based recommenders: the items of the index that the
  target has not rated.\<close>

definition candidates_of :: "(int \<times> vec) list \<Rightarrow> vec \<Rightarrow> int list" where
  "candidates_of itemIndex userRatings =
     fold (\<lambda>(it, v) candidates.
             (case map_of userRatings it of
                None \<Rightarrow> candidates @ [it]
              | Some r \<Rightarrow> candidates)) itemIndex []"

text \<open>The similarities between a candidate \<open>itemV\<close> and every item the target rated
  (the first loop of the body of \<open>RecommendItemBased\<close>, and of \<open>scoreItem\<close>).\<close>

definition simScores_of ::
  "(int \<times> vec) list \<Rightarrow> vec \<Rightarrow> int \<Rightarrow> SimMetric \<Rightarrow> error + (int \<times> real) list" where
  "simScores_of itemIndex userRatings itemV metric =
     (let vecB = row itemIndex itemV
      in fold (\<lambda>(itemU, r) acc.
                 bind_r acc (\<lambda>simScores.
                 bind_r (simBetween (row itemIndex itemU) vecB metric) (\<lambda>s.
                   Inr (AList.update itemU s simScores))))
              userRatings (Inr []))"

definition RecommendItemBased ::
  "Dataset \<Rightarrow> int \<Rightarrow> int \<Rightarrow> SimMetric \<Rightarrow> int \<Rightarrow> error + ItemScore list" where
  "RecommendItemBased ds user topK metric neighborK =
     (case map_of (UserRatings ds) user of
        None \<Rightarrow> Inr []
      | Some userRatings \<Rightarrow>
          (let itemIndex = BuildItemIndex ds;
               candidates = candidates_of itemIndex userRatings
           in bind_r
                (fold (\<lambda>itemV acc.
                         bind_r acc (\<lambda>scores.
                         bind_r (simScores_of itemIndex userRatings itemV metric) (\<lambda>simScores.
                         bind_r (if neighborK > 0
                                 then topNneighborsFromScores simScores neighborK
                                 else Inr (fold (\<lambda>(k, sc) neighbors.
                                                   neighbors @ [\<lparr>id_nb = k, score = sc\<rparr>])
                                                simScores [])) (\<lambda>neighbors.
                           let (num, den) =
                                 fold (\<lambda>nb (num, den).
                                         (let r = get userRatings (id_nb nb)
                                          in (num + score nb * r, den + abs_f (score nb))))
                                      neighbors (0, 0)
                           in if den \<noteq> 0
                              then bind_r (fdiv num den) (\<lambda>q. Inr (AList.update itemV q scores))
                              else Inr (AList.update itemV 0 scores)))))
                      candidates (Inr []))
                (\<lambda>scores. topKFromMap scores topK)))"

text \<open>\<open>scoreItem\<close> calls \<open>topNneighborsFromScores\<close> without looking at \<open>neighborK\<close>.
  Its parameter \<open>ds\<close> is unused.\<close>

definition scoreItem ::
  "Dataset \<Rightarrow> vec \<Rightarrow> (int \<times> vec) list \<Rightarrow> int \<Rightarrow> SimMetric \<Rightarrow> int \<Rightarrow> error + real" where
  "scoreItem ds userRatings itemIndex itemV metric neighborK =
     bind_r (simScores_of itemIndex userRatings itemV metric) (\<lambda>simScores.
     bind_r (topNneighborsFromScores simScores neighborK) (\<lambda>neighbors.
       let (num, den) =
             fold (\<lambda>nb (num, den).
                     (let r = get userRatings (id_nb nb)
                      in (num + score nb * r,
                          if score nb < 0 then den - score nb else den + score nb)))
                  neighbors (0, 0)
       in if den = 0 then Inr 0 else fdiv num den))"

text \<open>
  \<open>RecommendItemBasedParallel\<close>. \<open>candidate_slices\<close> is the slicing of the worker loop:
  \<open>chunk = len(candidates) / workers\<close>, at least 1, and worker \<open>w\<close> gets
  \<open>candidates[start:end]\<close> with \<open>start = w * chunk\<close> and \<open>end\<close> (here \<open>stop\<close>) the
  smaller of \<open>start + chunk\<close> and \<open>len(candidates)\<close>; a slice expression
  whose lower bound exceeds its upper bound panics. \<open>workers = 0\<close> divides by zero, a
  negative \<open>workers\<close> is a negative channel capacity. Each worker scores its slice into a
  map of its own (\<open>worker_partial\<close>); a panic in a worker ends the program. The main
  goroutine merges the partial maps; the slices are disjoint, so the merged map does not
  depend on the order in which the partial maps arrive, and the model merges them in worker
  order.
\<close>

definition candidate_slices :: "int list \<Rightarrow> int \<Rightarrow> error + int list list" where
  "candidate_slices candidates workers =
     (if workers = 0 then Inl IntegerDivideByZero
      else if workers < 0 then Inl MakeChanSizeOutOfRange
      else
        let chunk = length candidates div nat workers;
            chunk = (if chunk = 0 then 1 else chunk)
        in fold (\<lambda>w acc.
                   bind_r acc (\<lambda>slices.
                     let start = w * chunk;
                         stop = start + chunk;
                         stop = (if stop > length candidates then length candidates else stop)
                     in if start > stop then Inl SliceBoundsOutOfRange
                        else Inr (slices @ [take (stop - start) (drop start candidates)])))
                [0..<nat workers] (Inr []))"

definition worker_partial ::
  "Dataset \<Rightarrow> vec \<Rightarrow> (int \<times> vec) list \<Rightarrow> SimMetric \<Rightarrow> int \<Rightarrow> int list
     \<Rightarrow> error + (int \<times> real) list" where
  "worker_partial ds userRatings itemIndex metric neighborK slice =
     fold (\<lambda>itemV acc.
             bind_r acc (\<lambda>partial.
             bind_r (scoreItem ds userRatings itemIndex itemV metric neighborK) (\<lambda>s.
               Inr (AList.update itemV s partial))))
          slice (Inr [])"

definition RecommendItemBasedParallel ::
  "Dataset \<Rightarrow> int \<Rightarrow> int \<Rightarrow> SimMetric \<Rightarrow> int \<Rightarrow> int \<Rightarrow> error + ItemScore list" where
  "RecommendItemBasedParallel ds user topK metric neighborK workers =
     (case map_of (UserRatings ds) user of
        None \<Rightarrow> Inr []
      | Some userRatings \<Rightarrow>
          (let itemIndex = BuildItemIndex ds;
               candidates = candidates_of itemIndex userRatings
           in bind_r (candidate_slices candidates workers) (\<lambda>slices.
              bind_r (fold (\<lambda>slice acc.
                              bind_r acc (\<lambda>scores.
                              bind_r (worker_partial ds userRatings itemIndex metric
                                        neighborK slice) (\<lambda>part.
                                Inr (fold (\<lambda>(k, v) scores. AList.update k v scores)
                                          part scores))))
                           slices (Inr [])) (\<lambda>scores.
              topKFromMap scores topK))))"

text \<open>
  \<open>RecommendUserBased\<close>. \<open>userSims_of\<close> is its first loop, with the threshold test whose
  only statement is \<open>continue\<close>; \<open>userSims_plain\<close> is the same loop with the test removed;
  \<open>userBased_rest\<close> is everything after the loop.
\<close>

definition userSims_of :: "Dataset \<Rightarrow> int \<Rightarrow> vec \<Rightarrow> SimMetric \<Rightarrow> error + (int \<times> real) list" where
  "userSims_of ds user targetRatings metric =
     fold (\<lambda>(other, ratings) acc.
             bind_r acc (\<lambda>userSims.
               if other = user then Inr userSims
               else bind_r (simBetween targetRatings ratings metric) (\<lambda>s.
                      let userSims = AList.update other s userSims
                      in if get userSims other < 0.05 then Inr userSims
                         else Inr userSims)))
          (UserRatings ds) (Inr [])"

definition userSims_plain :: "Dataset \<Rightarrow> int \<Rightarrow> vec \<Rightarrow> SimMetric \<Rightarrow> error + (int \<times> real) list" where
  "userSims_plain ds user targetRatings metric =
     fold (\<lambda>(other, ratings) acc.
             bind_r acc (\<lambda>userSims.
               if other = user then Inr userSims
               else bind_r (simBetween targetRatings ratings metric) (\<lambda>s.
                      Inr (AList.update other s userSims))))
          (UserRatings ds) (Inr [])"

definition userBased_rest ::
  "Dataset \<Rightarrow> vec \<Rightarrow> int \<Rightarrow> int \<Rightarrow> (int \<times> real) list \<Rightarrow> error + ItemScore list" where
  "userBased_rest ds targetRatings topK neighborK userSims =
     bind_r (topNneighborsFromScores userSims neighborK) (\<lambda>neighbors.
       if length neighbors = 0 then Inr []
       else
         let candidatesMap =
               fold (\<lambda>nb candidatesMap.
                       fold (\<lambda>(it, r) candidatesMap.
                               (case map_of targetRatings it of
                                  None \<Rightarrow> AList.update it () candidatesMap
                                | Some x \<Rightarrow> candidatesMap))
                            (row (UserRatings ds) (id_nb nb)) candidatesMap)
                    neighbors [];
             candidates = fold (\<lambda>(it, x) candidates. candidates @ [it]) candidatesMap []
         in bind_r
              (fold (\<lambda>it acc.
                       bind_r acc (\<lambda>scores.
                         let (num, den) =
                               fold (\<lambda>nb (num, den).
                                       (let other = id_nb nb; sim = score nb
                                        in case map_of (row (UserRatings ds) other) it of
                                             Some r \<Rightarrow> (num + sim * r, den + abs_f sim)
                                           | None \<Rightarrow> (num, den)))
                                    neighbors (0, 0)
                         in if den \<noteq> 0
                            then bind_r (fdiv num den) (\<lambda>q. Inr (AList.update it q scores))
                            else Inr (AList.update it 0 scores)))
                    candidates (Inr []))
              (\<lambda>scores. topKFromMap scores topK))"

definition RecommendUserBased ::
  "Dataset \<Rightarrow> int \<Rightarrow> int \<Rightarrow> SimMetric \<Rightarrow> int \<Rightarrow> error + ItemScore list" where
  "RecommendUserBased ds user topK metric neighborK =
     (case map_of (UserRatings ds) user of
        None \<Rightarrow> Inr []
      | Some targetRatings \<Rightarrow>
          bind_r (userSims_of ds user targetRatings metric) (\<lambda>userSims.
            userBased_rest ds targetRatings topK neighborK userSims))"

text \<open>The variant of \<open>RecommendUserBased\<close> with the threshold test removed.\<close>

definition RecommendUserBased_plain ::
  "Dataset \<Rightarrow> int \<Rightarrow> int \<Rightarrow> SimMetric \<Rightarrow> int \<Rightarrow> error + ItemScore list" where
  "RecommendUserBased_plain ds user topK metric neighborK =
     (case map_of (UserRatings ds) user of
        None \<Rightarrow> Inr []
      | Some targetRatings \<Rightarrow>
          bind_r (userSims_plain ds user targetRatings metric) (\<lambda>userSims.
            userBased_rest ds targetRatings topK neighborK userSims))"

section \<open>Example data\<close>

definition user_a :: User where
  "user_a = \<lparr>SteamID = ''a'',
              Games = [(1, \<lparr>PlaytimeNorm = 2, Rating = 2\<rparr>), (2, \<lparr>PlaytimeNorm = 2, Rating = 2\<rparr>)]\<rparr>"

definition user_b :: User where
  "user_b = \<lparr>SteamID = ''b'',
              Games = [(1, \<lparr>PlaytimeNorm = 1, Rating = 3\<rparr>), (2, \<lparr>PlaytimeNorm = 1, Rating = 3\<rparr>)]\<rparr>"

definition user_z :: User where
  "user_z = \<lparr>SteamID = ''z'', Games = [(1, \<lparr>PlaytimeNorm = 0, Rating = 0\<rparr>)]\<rparr>"


definition user_e :: User where
  "user_e = \<lparr>SteamID = ''e'', Games = []\<rparr>"

text \<open>Three small rating datasets. In \<open>ds_three\<close> user 1 has rated item 10 and has the
  three candidates 20, 30 and 40; in \<open>ds_one\<close> user 1 has the single candidate 20; in
  \<open>ds_empty_row\<close> user 1 is present with an empty rating map.\<close>

definition ds_three :: Dataset where
  "ds_three = \<lparr>UserRatings = [(1, [(10, 1)]), (2, [(10, 1), (20, 1), (30, 1), (40, 1)])],
                Users = 2, Movies = 40\<rparr>"

definition ds_one :: Dataset where
  "ds_one = \<lparr>UserRatings = [(1, [(10, 1)]), (2, [(10, 1), (20, 1)])],
              Users = 2, Movies = 20\<rparr>"

definition ds_empty_row :: Dataset where
  "ds_empty_row = \<lparr>UserRatings = [(1, []), (2, [(20, 1)])], Users = 2, Movies = 20\<rparr>"

section \<open>Notions used in the statements\<close>





text \<open>
  The binary-heap invariant of a \<open>minHeap\<close> on its first \<open>n\<close> cells (\<open>heap_upto\<close>), on the
  whole slice (\<open>is_heap\<close>), and the two weakened invariants that hold while \<open>heap_up\<close>
  moves the element at \<open>j\<close> towards the root and \<open>heap_down\<close> moves the element at \<open>i\<close>
  towards the leaves. \<open>nb_of\<close> turns an entry of the score map into a \<open>neighbor\<close>.
\<close>

definition parent :: "nat \<Rightarrow> nat" where
  "parent j = (j - 1) div 2"

definition heap_upto :: "minHeap \<Rightarrow> nat \<Rightarrow> bool" where
  "heap_upto h n = (\<forall>k<n. 0 < k \<longrightarrow> score (h ! parent k) \<le> score (h ! k))"

definition up_inv :: "minHeap \<Rightarrow> nat \<Rightarrow> bool" where
  "up_inv h j =
     (j < length h
      \<and> (\<forall>k<length h. 0 < k \<longrightarrow> k \<noteq> j \<longrightarrow> score (h ! parent k) \<le> score (h ! k))
      \<and> (\<forall>k<length h. 0 < k \<longrightarrow> parent k = j \<longrightarrow> 0 < j
             \<longrightarrow> score (h ! parent j) \<le> score (h ! k)))"

definition down_inv :: "minHeap \<Rightarrow> nat \<Rightarrow> nat \<Rightarrow> bool" where
  "down_inv h i n =
     (n \<le> length h
      \<and> (\<forall>k<n. 0 < k \<longrightarrow> parent k \<noteq> i \<longrightarrow> score (h ! parent k) \<le> score (h ! k))
      \<and> (\<forall>k<n. 0 < k \<longrightarrow> parent k = i \<longrightarrow> 0 < i
             \<longrightarrow> score (h ! parent i) \<le> score (h ! k)))"

definition is_heap :: "minHeap \<Rightarrow> bool" where
  "is_heap h = heap_upto h (length h)"

definition nb_of :: "int \<times> real \<Rightarrow> neighbor" where
  "nb_of p = \<lparr>id_nb = fst p, score = snd p\<rparr>"

section \<open>Basic facts\<close>

lemma bind_r_simps [simp]: "bind_r (Inl e) f = Inl e" "bind_r (Inr x) f = f x"
  by (simp_all add: bind_r_def)

lemma map_of_in_keys: "(map_of b k \<noteq> None) = (k \<in> keys b)"
  by (simp add: keys_def map_of_eq_None_iff)

section \<open>Pearson with fewer than two common keys\<close>

lemma count_common_fold:
  "fold (\<lambda>(k, va) common. (case map_of b k of Some vb \<Rightarrow> common + 1 | None \<Rightarrow> common)) a (c::nat)
     = c + length (filter (\<lambda>k. k \<in> keys b) (map fst a))"
proof (induction a arbitrary: c)
  case Nil
  then show ?case by simp
next
  case (Cons p a)
  obtain k va where p: "p = (k, va)" by (cases p)
  show ?case
    using map_of_in_keys [of b k] by (auto simp: p Cons.IH split: option.splits)
qed

lemma common_card:
  assumes "wf_map a"
  shows "length (filter (\<lambda>k. k \<in> keys b) (map fst a)) = card (keys a \<inter> keys b)"
proof -
  have d: "distinct (filter (\<lambda>k. k \<in> keys b) (map fst a))"
    using assms by (simp add: wf_map_def)
  have "set (filter (\<lambda>k. k \<in> keys b) (map fst a)) = keys a \<inter> keys b"
    by (auto simp: keys_def)
  then show ?thesis
    using distinct_card [OF d] by simp
qed

lemma commonGames_fold:
  "fold (\<lambda>(appID, game1) commonGames.
            (case map_of g2 appID of Some game2 \<Rightarrow> commonGames @ [appID] | None \<Rightarrow> commonGames)) g1 acc
     = acc @ filter (\<lambda>k. k \<in> keys g2) (map fst g1)"
proof (induction g1 arbitrary: acc)
  case Nil
  then show ?case by simp
next
  case (Cons p a)
  obtain k va where p: "p = (k, va)" by (cases p)
  show ?case
    using map_of_in_keys [of g2 k] by (auto simp: p Cons.IH split: option.splits)
qed

lemma Pearson_common_card:
  "wf_map a \<Longrightarrow> Pearson_common a b = card (keys a \<inter> keys b)"
  unfolding Pearson_common_def
  using count_common_fold [of b a 0] common_card [of a b] by simp

lemma commonGames_card:
  "wf_map (Games u1) \<Longrightarrow>
   length (pearson_commonGames u1 u2) = card (keys (Games u1) \<inter> keys (Games u2))"
  unfolding pearson_commonGames_def
  using commonGames_fold [of "Games u2" "Games u1" "[]"] common_card [of "Games u1" "Games u2"]
  by simp

text \<open>
  C6. Two rating vectors (maps with distinct keys) that share fewer than two keys have
  Pearson correlation exactly 0, whatever their values; the same holds for
  \<open>pearsonCorrelation\<close> of two users that share fewer than two games.
\<close>

theorem Pearson_few_common_zero:
  assumes "wf_map a" and "card (keys a \<inter> keys b) < 2"
    and "wf_map (Games u1)" and "card (keys (Games u1) \<inter> keys (Games u2)) < 2"
  shows "Pearson a b = Inr 0 \<and> pearsonCorrelation u1 u2 = Inr 0"
proof
  show "Pearson a b = Inr 0"
    using assms(1,2) by (simp add: Pearson_def Pearson_common_card)
  show "pearsonCorrelation u1 u2 = Inr 0"
    using assms(3,4) by (simp add: pearsonCorrelation_def commonGames_card)
qed

theorem Pearson_few_common_zero_witness:
  "wf_map [(1, 3), (2, 5 :: real)]
   \<and> card (keys [(1, 3), (2, 5 :: real)] \<inter> keys [(2, 4), (7, 1 :: real)]) < 2
   \<and> wf_map (Games \<lparr>SteamID = ''a'', Games = [(10, \<lparr>PlaytimeNorm = 1, Rating = 2\<rparr>)]\<rparr>)
   \<and> card (keys (Games \<lparr>SteamID = ''a'', Games = [(10, \<lparr>PlaytimeNorm = 1, Rating = 2\<rparr>)]\<rparr>)
             \<inter> keys (Games \<lparr>SteamID = ''b'', Games = [(10, \<lparr>PlaytimeNorm = 3, Rating = 1\<rparr>)]\<rparr>)) < 2
   \<and> Pearson [(1, 3), (2, 5)] [(2, 4), (7, 1)] = Inr 0
   \<and> pearsonCorrelation \<lparr>SteamID = ''a'', Games = [(10, \<lparr>PlaytimeNorm = 1, Rating = 2\<rparr>)]\<rparr>
        \<lparr>SteamID = ''b'', Games = [(10, \<lparr>PlaytimeNorm = 3, Rating = 1\<rparr>)]\<rparr> = Inr 0"
proof -
  have h1: "wf_map [(1, 3), (2, 5 :: real)]" by (simp add: wf_map_def)
  have h2: "card (keys [(1, 3), (2, 5 :: real)] \<inter> keys [(2, 4), (7, 1 :: real)]) < 2"
    by (simp add: keys_def)
  have h3: "wf_map (Games \<lparr>SteamID = ''a'', Games = [(10, \<lparr>PlaytimeNorm = 1, Rating = 2\<rparr>)]\<rparr>)"
    by (simp add: wf_map_def)
  have h4: "card (keys (Games \<lparr>SteamID = ''a'', Games = [(10, \<lparr>PlaytimeNorm = 1, Rating = 2\<rparr>)]\<rparr>)
             \<inter> keys (Games \<lparr>SteamID = ''b'', Games = [(10, \<lparr>PlaytimeNorm = 3, Rating = 1\<rparr>)]\<rparr>)) < 2"
    by (simp add: keys_def)
  show ?thesis
    using Pearson_few_common_zero [OF h1 h2 h3 h4] h1 h2 h3 h4 by blast
qed

section \<open>Cosine of a vector with itself\<close>
















section \<open>The metrics are total\<close>

lemma Cosine_total: "\<exists>v. Cosine a b = Inr v"
  by (auto simp: Cosine_def fdiv_def split: prod.splits)

lemma Pearson_total: "\<exists>v. Pearson a b = Inr v"
  by (auto simp: Pearson_def Pearson_means_def fdiv_def Let_def split: prod.splits)

lemma Jaccard_total: "\<exists>v. Jaccard a b = Inr v"
  by (auto simp: Jaccard_def fdiv_def split: prod.splits)

lemma cosineSimilarity_total: "\<exists>v. cosineSimilarity u1 u2 = Inr v"
  by (auto simp: cosineSimilarity_def fdiv_def Let_def split: prod.splits)

lemma pearsonCorrelation_total: "\<exists>v. pearsonCorrelation u1 u2 = Inr v"
  by (auto simp: pearsonCorrelation_def pearson_means_def fdiv_def Let_def split: prod.splits)

lemma jaccardIndex_total: "\<exists>v. jaccardIndex u1 u2 = Inr v"
  by (auto simp: jaccardIndex_def fdiv_def split: prod.splits)

lemma JaccardWeighted_total: "\<exists>v. JaccardWeighted u1 u2 = Inr v"
  by (auto simp: JaccardWeighted_def fdiv_def split: prod.splits)

lemma simBetween_total: "\<exists>v. simBetween a b metric = Inr v"
  by (simp add: simBetween_def Cosine_total Pearson_total Jaccard_total)

lemma Cosine_guard:
  "Cosine_sums a b = (dot, suma, sumb) \<Longrightarrow> sqrt suma * sqrt sumb = 0 \<Longrightarrow> Cosine a b = Inr 0"
  by (auto simp: Cosine_def)

lemma Pearson_guard1: "Pearson_common a b = 0 \<Longrightarrow> Pearson a b = Inr 0"
  by (simp add: Pearson_def)

lemma Pearson_guard2:
  "Pearson_means a b (Pearson_common a b) = Inr (meanA, meanB) \<Longrightarrow>
   Pearson_centred a b meanA meanB = (num, denA, denB) \<Longrightarrow>
   sqrt denA * sqrt denB = 0 \<Longrightarrow> Pearson a b = Inr 0"
  by (auto simp: Pearson_def Let_def)

lemma Jaccard_guard:
  "Jaccard_counts a b = (n, un) \<Longrightarrow> length un = 0 \<Longrightarrow> Jaccard a b = Inr 0"
  by (auto simp: Jaccard_def)

lemma cosineSimilarity_guard:
  "cosineSimilarity_sums u1 u2 = (dotProduct, norm1, norm2) \<Longrightarrow> sqrt norm1 * sqrt norm2 = 0
    \<Longrightarrow> cosineSimilarity u1 u2 = Inr 0"
  by (auto simp: cosineSimilarity_def)

lemma pearsonCorrelation_guard1:
  "pearson_values u1 u2 (pearson_commonGames u1 u2) = (values1, values2) \<Longrightarrow> length values1 = 0
    \<Longrightarrow> pearsonCorrelation u1 u2 = Inr 0"
  by (auto simp: pearsonCorrelation_def Let_def)

lemma pearsonCorrelation_guard2:
  "pearson_values u1 u2 (pearson_commonGames u1 u2) = (values1, values2) \<Longrightarrow>
   pearson_means values1 values2 = Inr (mean1, mean2) \<Longrightarrow>
   pearson_centred values1 values2 mean1 mean2 = (numerator, denom1, denom2) \<Longrightarrow>
   sqrt (denom1 * denom2) = 0 \<Longrightarrow> pearsonCorrelation u1 u2 = Inr 0"
  by (auto simp: pearsonCorrelation_def Let_def)

lemma jaccardIndex_guard:
  "jaccardIndex_union u1 u2 = (n, un) \<Longrightarrow> un = 0 \<Longrightarrow> jaccardIndex u1 u2 = Inr 0"
  by (auto simp: jaccardIndex_def)

lemma JaccardWeighted_guard:
  "JaccardWeighted_sums u1 u2 = (minSum, maxSum) \<Longrightarrow> maxSum = 0 \<Longrightarrow> JaccardWeighted u1 u2 = Inr 0"
  by (auto simp: JaccardWeighted_def)

text \<open>
  C8. Every metric returns a value for every pair of inputs: none of the seven functions
  (the three of \<open>ml\<close> and the four of \<open>algorithms\<close>) reaches a division whose denominator
  is 0, since \<open>fdiv\<close> would then return an error. Moreover each function returns 0 whenever
  the denominator of one of its divisions is 0: the product of the norms in the two cosines,
  the number of common keys and the product of the roots of the centred sums in the two
  Pearson functions, the size of the union in the two Jaccard functions, the sum of maxima
  in \<open>JaccardWeighted\<close>.
\<close>

theorem metrics_total:
  "(\<forall>a b. \<exists>v. Cosine a b = Inr v) \<and>
   (\<forall>a b. \<exists>v. Pearson a b = Inr v) \<and>
   (\<forall>a b. \<exists>v. Jaccard a b = Inr v) \<and>
   (\<forall>u1 u2. \<exists>v. cosineSimilarity u1 u2 = Inr v) \<and>
   (\<forall>u1 u2. \<exists>v. pearsonCorrelation u1 u2 = Inr v) \<and>
   (\<forall>u1 u2. \<exists>v. jaccardIndex u1 u2 = Inr v) \<and>
   (\<forall>u1 u2. \<exists>v. JaccardWeighted u1 u2 = Inr v) \<and>
   (\<forall>a b dot suma sumb.
      Cosine_sums a b = (dot, suma, sumb) \<longrightarrow> sqrt suma * sqrt sumb = 0 \<longrightarrow> Cosine a b = Inr 0) \<and>
   (\<forall>a b. real (Pearson_common a b) = 0 \<longrightarrow> Pearson a b = Inr 0) \<and>
   (\<forall>a b meanA meanB num denA denB.
      Pearson_means a b (Pearson_common a b) = Inr (meanA, meanB) \<longrightarrow>
      Pearson_centred a b meanA meanB = (num, denA, denB) \<longrightarrow>
      sqrt denA * sqrt denB = 0 \<longrightarrow> Pearson a b = Inr 0) \<and>
   (\<forall>a b n un. Jaccard_counts a b = (n, un) \<longrightarrow> real (length un) = 0 \<longrightarrow> Jaccard a b = Inr 0) \<and>
   (\<forall>u1 u2 dotProduct norm1 norm2.
      cosineSimilarity_sums u1 u2 = (dotProduct, norm1, norm2) \<longrightarrow>
      sqrt norm1 * sqrt norm2 = 0 \<longrightarrow> cosineSimilarity u1 u2 = Inr 0) \<and>
   (\<forall>u1 u2 values1 values2.
      pearson_values u1 u2 (pearson_commonGames u1 u2) = (values1, values2) \<longrightarrow>
      real (length values1) = 0 \<longrightarrow> pearsonCorrelation u1 u2 = Inr 0) \<and>
   (\<forall>u1 u2 values1 values2 mean1 mean2 numerator denom1 denom2.
      pearson_values u1 u2 (pearson_commonGames u1 u2) = (values1, values2) \<longrightarrow>
      pearson_means values1 values2 = Inr (mean1, mean2) \<longrightarrow>
      pearson_centred values1 values2 mean1 mean2 = (numerator, denom1, denom2) \<longrightarrow>
      sqrt (denom1 * denom2) = 0 \<longrightarrow> pearsonCorrelation u1 u2 = Inr 0) \<and>
   (\<forall>u1 u2 n un.
      jaccardIndex_union u1 u2 = (n, un) \<longrightarrow> real_of_int un = 0 \<longrightarrow> jaccardIndex u1 u2 = Inr 0) \<and>
   (\<forall>u1 u2 minSum maxSum.
      JaccardWeighted_sums u1 u2 = (minSum, maxSum) \<longrightarrow> maxSum = 0 \<longrightarrow>
      JaccardWeighted u1 u2 = Inr 0)"
  apply (intro conjI allI impI)
  subgoal by (rule Cosine_total)
  subgoal by (rule Pearson_total)
  subgoal by (rule Jaccard_total)
  subgoal by (rule cosineSimilarity_total)
  subgoal by (rule pearsonCorrelation_total)
  subgoal by (rule jaccardIndex_total)
  subgoal by (rule JaccardWeighted_total)
  subgoal by (erule (1) Cosine_guard)
  subgoal by (simp add: Pearson_guard1)
  subgoal by (erule (2) Pearson_guard2)
  subgoal by (simp add: Jaccard_guard)
  subgoal by (erule (1) cosineSimilarity_guard)
  subgoal by (simp add: pearsonCorrelation_guard1)
  subgoal by (erule (3) pearsonCorrelation_guard2)
  subgoal by (simp add: jaccardIndex_guard)
  subgoal by (erule (1) JaccardWeighted_guard)
  done

theorem metrics_total_witness:
  "Cosine_sums [(1, 0)] [(1, 2)] = (0, 0, 4) \<and> sqrt 0 * sqrt 4 = 0
   \<and> Cosine [(1, 0)] [(1, 2)] = Inr 0
   \<and> real (Pearson_common [(1, 1)] [(2, 1)]) = 0 \<and> Pearson [(1, 1)] [(2, 1)] = Inr 0
   \<and> Pearson_means [(1, 3), (2, 3)] [(1, 1), (2, 5)]
        (Pearson_common [(1, 3), (2, 3)] [(1, 1), (2, 5)]) = Inr (3, 3)
   \<and> Pearson_centred [(1, 3), (2, 3)] [(1, 1), (2, 5)] 3 3 = (0, 0, 8) \<and> sqrt 0 * sqrt 8 = 0
   \<and> Pearson [(1, 3), (2, 3)] [(1, 1), (2, 5)] = Inr 0
   \<and> Jaccard_counts [] [] = (0, []) \<and> real (length ([] :: (int \<times> unit) list)) = 0
   \<and> Jaccard [] [] = Inr 0
   \<and> cosineSimilarity_sums user_z user_a = (0, 0, 16) \<and> sqrt 0 * sqrt 16 = 0
   \<and> cosineSimilarity user_z user_a = Inr 0
   \<and> pearson_values user_e user_e (pearson_commonGames user_e user_e) = ([], [])
   \<and> real (length ([] :: real list)) = 0
   \<and> pearsonCorrelation user_e user_e = Inr 0
   \<and> pearson_values user_a user_b (pearson_commonGames user_a user_b)
        = ([2, 2, 2, 2], [1, 3, 1, 3])
   \<and> pearson_means [2, 2, 2, 2] [1, 3, 1, 3] = Inr (2, 2)
   \<and> pearson_centred [2, 2, 2, 2] [1, 3, 1, 3] 2 2 = (0, 0, 4) \<and> sqrt (0 * 4) = 0
   \<and> pearsonCorrelation user_a user_b = Inr 0
   \<and> jaccardIndex_union user_e user_e = (0, 0) \<and> real_of_int 0 = 0
   \<and> jaccardIndex user_e user_e = Inr 0
   \<and> JaccardWeighted_sums user_e user_e = (0, 0) \<and> JaccardWeighted user_e user_e = Inr 0"
proof -
  note T = metrics_total
  have "\<forall>a b dot suma sumb.
      Cosine_sums a b = (dot, suma, sumb) \<longrightarrow> sqrt suma * sqrt sumb = 0 \<longrightarrow> Cosine a b = Inr 0"
    using T by - ((erule conjE)+, assumption)
  note G1 = this [rule_format]
  have "\<forall>a b. real (Pearson_common a b) = 0 \<longrightarrow> Pearson a b = Inr 0"
    using T by - ((erule conjE)+, assumption)
  note G2 = this [rule_format]
  have "\<forall>a b meanA meanB num denA denB.
      Pearson_means a b (Pearson_common a b) = Inr (meanA, meanB) \<longrightarrow>
      Pearson_centred a b meanA meanB = (num, denA, denB) \<longrightarrow>
      sqrt denA * sqrt denB = 0 \<longrightarrow> Pearson a b = Inr 0"
    using T by - ((erule conjE)+, assumption)
  note G3 = this [rule_format]
  have "\<forall>a b n un. Jaccard_counts a b = (n, un) \<longrightarrow> real (length un) = 0 \<longrightarrow> Jaccard a b = Inr 0"
    using T by - ((erule conjE)+, assumption)
  note G4 = this [rule_format]
  have "\<forall>u1 u2 dotProduct norm1 norm2.
      cosineSimilarity_sums u1 u2 = (dotProduct, norm1, norm2) \<longrightarrow>
      sqrt norm1 * sqrt norm2 = 0 \<longrightarrow> cosineSimilarity u1 u2 = Inr 0"
    using T by - ((erule conjE)+, assumption)
  note G5 = this [rule_format]
  have "\<forall>u1 u2 values1 values2.
      pearson_values u1 u2 (pearson_commonGames u1 u2) = (values1, values2) \<longrightarrow>
      real (length values1) = 0 \<longrightarrow> pearsonCorrelation u1 u2 = Inr 0"
    using T by - ((erule conjE)+, assumption)
  note G6 = this [rule_format]
  have "\<forall>u1 u2 values1 values2 mean1 mean2 numerator denom1 denom2.
      pearson_values u1 u2 (pearson_commonGames u1 u2) = (values1, values2) \<longrightarrow>
      pearson_means values1 values2 = Inr (mean1, mean2) \<longrightarrow>
      pearson_centred values1 values2 mean1 mean2 = (numerator, denom1, denom2) \<longrightarrow>
      sqrt (denom1 * denom2) = 0 \<longrightarrow> pearsonCorrelation u1 u2 = Inr 0"
    using T by - ((erule conjE)+, assumption)
  note G7 = this [rule_format]
  have "\<forall>u1 u2 n un.
      jaccardIndex_union u1 u2 = (n, un) \<longrightarrow> real_of_int un = 0 \<longrightarrow> jaccardIndex u1 u2 = Inr 0"
    using T by - ((erule conjE)+, assumption)
  note G8 = this [rule_format]
  have "\<forall>u1 u2 minSum maxSum.
      JaccardWeighted_sums u1 u2 = (minSum, maxSum) \<longrightarrow> maxSum = 0 \<longrightarrow>
      JaccardWeighted u1 u2 = Inr 0"
    using T by - ((erule conjE)+, assumption)
  note G9 = this [rule_format]
  have t1: "Cosine_sums [(1, 0)] [(1, 2)] = (0, 0, 4)"
    by (simp add: Cosine_sums_def)
  have z1: "sqrt 0 * sqrt 4 = 0" by simp
  have z2: "real (Pearson_common [(1, 1)] [(2, 1)]) = 0"
    by (simp add: Pearson_common_def)
  have t3: "Pearson_common [(1, 3), (2, 3)] [(1, 1), (2, 5)] = 2"
    by (simp add: Pearson_common_def)
  have m: "Pearson_means [(1, 3), (2, 3)] [(1, 1), (2, 5)]
        (Pearson_common [(1, 3), (2, 3)] [(1, 1), (2, 5)]) = Inr (3, 3)"
    by (simp add: t3 Pearson_means_def get_def fdiv_def)
  have t5: "Pearson_centred [(1, 3), (2, 3)] [(1, 1), (2, 5)] 3 3 = (0, 0, 8)"
    by (simp add: Pearson_centred_def get_def)
  have z3: "sqrt 0 * sqrt 8 = 0" by simp
  have j1: "Jaccard_counts [] [] = (0, [])" by (simp add: Jaccard_counts_def)
  have j2: "real (length ([] :: (int \<times> unit) list)) = 0" by simp
  have c1: "cosineSimilarity_sums user_z user_a = (0, 0, 16)"
    by (simp add: cosineSimilarity_sums_def user_z_def user_a_def)
  have c2: "sqrt 0 * sqrt 16 = 0" by simp
  have p1: "pearson_values user_e user_e (pearson_commonGames user_e user_e) = ([], [])"
    by (simp add: pearson_values_def pearson_commonGames_def user_e_def)
  have p2: "real (length ([] :: real list)) = 0" by simp
  have p3: "pearson_commonGames user_a user_b = [1, 2]"
    by (simp add: pearson_commonGames_def user_a_def user_b_def)
  have p4: "pearson_values user_a user_b (pearson_commonGames user_a user_b)
              = ([2, 2, 2, 2], [1, 3, 1, 3])"
    by (subst p3) (simp add: pearson_values_def game_of_def user_a_def user_b_def)
  have p5: "pearson_means [2, 2, 2, 2] [1, 3, 1, 3] = Inr (2, 2)"
    by (simp add: pearson_means_def fdiv_def upt_conv_Cons)
  have p6: "pearson_centred [2, 2, 2, 2] [1, 3, 1, 3] 2 2 = (0, 0, 4)"
    by (simp add: pearson_centred_def upt_conv_Cons)
  have p7: "sqrt (0 * 4) = 0" by simp
  have i1: "jaccardIndex_union user_e user_e = (0, 0)"
    by (simp add: jaccardIndex_union_def user_e_def)
  have i2: "real_of_int 0 = 0" by simp
  have w1: "JaccardWeighted_sums user_e user_e = (0, 0)"
    by (simp add: JaccardWeighted_sums_def user_e_def)
  show ?thesis
    by (intro conjI t1 z1 G1 [OF t1 z1] z2 G2 [OF z2] m t5 z3 G3 [OF m t5 z3]
          j1 j2 G4 [OF j1 j2] c1 c2 G5 [OF c1 c2] p1 p2 G6 [OF p1 p2]
          p4 p5 p6 p7 G7 [OF p4 p5 p6 p7] i1 i2 G8 [OF i1 i2] w1 G9 [OF w1 refl])
qed

section \<open>Similarity matrices\<close>

lemma fold_bind_Inl: "fold (\<lambda>x acc. bind_r acc (f x)) xs (Inl e) = Inl e"
  by (induction xs) simp_all




















text \<open>
  Beyond the bound on the worker count the product \<open>numWorkers * 100\<close> wraps to a negative
  capacity and the concurrent builders panic, whatever the users.
\<close>

lemma concurrent_matrix_capacity_wraps:
  "concurrent_matrix metric users 92233720368547759 sched = Inl MakeChanSizeOutOfRange"
proof -
  have "wrap64 (92233720368547759 * 100) = - 9223372036854775716"
    by (simp add: wrap64_def)
  then have "min c (wrap64 (92233720368547759 * 100)) < 0" for c
    by (simp add: min_less_iff_disj)
  then show ?thesis
    by (simp add: concurrent_matrix_def Let_def)
qed



section \<open>Evaluating the recommenders\<close>

lemmas rec_defs = RecommendItemBased_def RecommendItemBasedParallel_def RecommendUserBased_def
  BuildItemIndex_def candidates_of_def simScores_of_def row_def simBetween_def
  CosineSim_def PearsonSim_def JaccardSim_def Jaccard_def Jaccard_counts_def
  topKFromMap_def abs_f_def get_def fdiv_def scoreItem_def worker_partial_def
  candidate_slices_def userSims_of_def userBased_rest_def
  topNneighborsFromScores_def heap_Push_def heap_Pop_def index_def
  minHeap_Less_def minHeap_Swap_def

text \<open>
  What the slicing does in general: with at most as many workers as candidates, the slices
  are the consecutive chunks of length \<open>len(candidates) / workers\<close>, and together they are
  the first \<open>workers * (len(candidates) / workers)\<close> candidates; the remaining
  \<open>len(candidates) mod workers\<close> candidates are in no slice.
\<close>

lemma concat_chunks:
  "concat (map (\<lambda>w. take c (drop (w * c) cs)) [0..<W]) = take (W * c) cs"
proof (induction W)
  case 0
  then show ?case by simp
next
  case (Suc W)
  have "take (W * c + c) cs = take (W * c) cs @ take c (drop (W * c) cs)"
    by (rule take_add)
  then show ?case using Suc by (simp add: add.commute)
qed

lemma slicing_loop:
  assumes c: "0 < c" and fit: "W' * c \<le> length cs"
  shows "fold (\<lambda>w acc.
                   bind_r acc (\<lambda>slices.
                     let start = w * c;
                         stop = start + c;
                         stop = (if stop > length cs then length cs else stop)
                     in if start > stop then Inl SliceBoundsOutOfRange
                        else Inr (slices @ [take (stop - start) (drop start cs)])))
                [0..<W'] (Inr [])
         = Inr (map (\<lambda>w. take c (drop (w * c) cs)) [0..<W'])"
  using fit
proof (induction W')
  case 0
  then show ?case by simp
next
  case (Suc W')
  have le: "W' * c + c \<le> length cs" using Suc.prems by (simp add: add.commute)
  then have "W' * c \<le> length cs" by simp
  from Suc.IH [OF this] show ?case
    using le by (simp add: Let_def)
qed

lemma candidate_slices_cover_prefix:
  assumes "0 < W" and "W \<le> length cs"
  shows "\<exists>ss. candidate_slices cs (int W) = Inr ss
           \<and> concat ss = take (W * (length cs div W)) cs"
proof -
  let ?c = "length cs div W"
  have c: "0 < ?c" using assms by (simp add: div_greater_zero_iff)
  have fit: "W * ?c \<le> length cs" by simp
  have "candidate_slices cs (int W) = Inr (map (\<lambda>w. take ?c (drop (w * ?c) cs)) [0..<W])"
    using assms c slicing_loop [OF c fit] by (simp add: candidate_slices_def Let_def)
  then show ?thesis by (simp add: concat_chunks)
qed

text \<open>
  C1, at a failing input. With three candidates and two workers the chunk is
  \<open>3 / 2 = 1\<close>: worker 0 gets the first candidate, worker 1 the second, and the third is in
  no slice, whatever the three candidates are and in whatever order the map iteration
  listed them. In \<open>ds_three\<close> user 1 has three candidates and the parallel recommender
  scores two. With no candidate at all and two workers, the slice expression of worker 1
  is \<open>candidates[1:0]\<close>, which panics.
\<close>

theorem candidate_slices_drop_remainder:
  "(\<forall>x y z. candidate_slices [x, y, z] 2 = Inr [[x], [y]])
   \<and> candidates_of (BuildItemIndex ds_three) [(10, 1)] = [20, 30, 40]
   \<and> RecommendItemBasedParallel ds_three 1 5 JaccardSim 1 2
        = Inr [\<lparr>MovieID = 20, Score = 1\<rparr>, \<lparr>MovieID = 30, Score = 1\<rparr>]
   \<and> candidate_slices [] 2 = Inl SliceBoundsOutOfRange"
proof (intro conjI allI)
  fix x y z
  show "candidate_slices [x, y, z] 2 = Inr [[x], [y]]"
    by (simp add: candidate_slices_def upt_conv_Cons)
  show "candidates_of (BuildItemIndex ds_three) [(10, 1)] = [20, 30, 40]"
    by (simp add: candidates_of_def BuildItemIndex_def row_def ds_three_def)
  show "RecommendItemBasedParallel ds_three 1 5 JaccardSim 1 2
        = Inr [\<lparr>MovieID = 20, Score = 1\<rparr>, \<lparr>MovieID = 30, Score = 1\<rparr>]"
    by (simp add: rec_defs ds_three_def heap_up.simps heap_down.simps upt_conv_Cons)
  show "candidate_slices [] 2 = Inl SliceBoundsOutOfRange"
    by (simp add: candidate_slices_def upt_conv_Cons)
qed

text \<open>
  C2, at a failing input: on \<open>ds_three\<close>, for user 1 with \<open>topK = 5\<close>, the Jaccard metric and
  \<open>neighborK = 1\<close>, the sequential recommender returns three scored items and the parallel
  one with two workers returns two.
\<close>

theorem parallel_differs_from_sequential:
  "RecommendItemBased ds_three 1 5 JaccardSim 1
     = Inr [\<lparr>MovieID = 20, Score = 1\<rparr>, \<lparr>MovieID = 30, Score = 1\<rparr>, \<lparr>MovieID = 40, Score = 1\<rparr>]
   \<and> RecommendItemBasedParallel ds_three 1 5 JaccardSim 1 2
     = Inr [\<lparr>MovieID = 20, Score = 1\<rparr>, \<lparr>MovieID = 30, Score = 1\<rparr>]"
proof
  show "RecommendItemBased ds_three 1 5 JaccardSim 1
     = Inr [\<lparr>MovieID = 20, Score = 1\<rparr>, \<lparr>MovieID = 30, Score = 1\<rparr>, \<lparr>MovieID = 40, Score = 1\<rparr>]"
    by (simp add: rec_defs ds_three_def heap_up.simps heap_down.simps)
  show "RecommendItemBasedParallel ds_three 1 5 JaccardSim 1 2
     = Inr [\<lparr>MovieID = 20, Score = 1\<rparr>, \<lparr>MovieID = 30, Score = 1\<rparr>]"
    by (simp add: rec_defs ds_three_def heap_up.simps heap_down.simps upt_conv_Cons)
qed

text \<open>
  C3, at a failing input. \<open>topNneighborsFromScores\<close> with \<open>n = 0\<close> on a non-empty score map
  reads \<open>(*h)[0]\<close> of the empty heap. On \<open>ds_one\<close> with \<open>neighborK = 0\<close> the sequential
  item-based recommender uses all neighbours and returns, while the parallel one (through
  \<open>scoreItem\<close>) and the user-based one panic.
\<close>

theorem neighborK_zero_panics:
  "(\<forall>k sc rest. topNneighborsFromScores ((k, sc) # rest) 0 = Inl IndexOutOfRange)
   \<and> RecommendItemBased ds_one 1 5 JaccardSim 0 = Inr [\<lparr>MovieID = 20, Score = 1\<rparr>]
   \<and> RecommendItemBasedParallel ds_one 1 5 JaccardSim 0 1 = Inl IndexOutOfRange
   \<and> RecommendUserBased ds_one 1 5 JaccardSim 0 = Inl IndexOutOfRange"
proof (intro conjI allI)
  fix k sc rest
  show "topNneighborsFromScores ((k, sc) # rest) 0 = Inl IndexOutOfRange"
    by (simp add: topNneighborsFromScores_def index_def)
  show "RecommendItemBased ds_one 1 5 JaccardSim 0 = Inr [\<lparr>MovieID = 20, Score = 1\<rparr>]"
    by (simp add: rec_defs ds_one_def)
  show "RecommendItemBasedParallel ds_one 1 5 JaccardSim 0 1 = Inl IndexOutOfRange"
    by (simp add: rec_defs ds_one_def upt_conv_Cons)
  show "RecommendUserBased ds_one 1 5 JaccardSim 0 = Inl IndexOutOfRange"
    by (simp add: rec_defs ds_one_def)
qed

text \<open>
  C5. The threshold test of \<open>RecommendUserBased\<close> has no effect: the recommender returns
  the same result (value or panic) as the variant without the test, for every dataset,
  user, \<open>topK\<close>, metric and \<open>neighborK\<close>.
\<close>

theorem RecommendUserBased_threshold_no_effect:
  "RecommendUserBased ds user topK metric neighborK
     = RecommendUserBased_plain ds user topK metric neighborK"
proof -
  have "userSims_of ds user targetRatings metric = userSims_plain ds user targetRatings metric"
    for targetRatings
    by (simp add: userSims_of_def userSims_plain_def Let_def cong: if_cong)
  then show ?thesis
    by (simp add: RecommendUserBased_def RecommendUserBased_plain_def cong: option.case_cong)
qed

text \<open>
  C10, as stated: a target that has rated nothing gets an empty result. In \<open>ds_empty_row\<close>
  user 1 is present with an empty rating map; every item of the index is then a candidate
  with score 0, and the result is not empty.
\<close>

theorem RecommendItemBased_empty_row_counterexample:
  "map_of (UserRatings ds_empty_row) 1 = Some []
   \<and> RecommendItemBased ds_empty_row 1 1 CosineSim 0 = Inr [\<lparr>MovieID = 20, Score = 0\<rparr>]
   \<and> RecommendItemBased ds_empty_row 1 1 CosineSim 0 \<noteq> Inr []"
proof -
  have "RecommendItemBased ds_empty_row 1 1 CosineSim 0 = Inr [\<lparr>MovieID = 20, Score = 0\<rparr>]"
    by (simp add: rec_defs ds_empty_row_def)
  then show ?thesis by (simp add: ds_empty_row_def)
qed

text \<open>
  C10, amended: a target user with no entry in the rating index of the dataset gets the
  empty result, for every \<open>topK\<close>, metric and \<open>neighborK\<close>.
\<close>

theorem RecommendItemBased_missing_user:
  "map_of (UserRatings ds) user = None \<Longrightarrow>
   RecommendItemBased ds user topK metric neighborK = Inr []"
  by (simp add: RecommendItemBased_def)

theorem RecommendItemBased_missing_user_witness:
  "map_of (UserRatings ds_one) 7 = None \<and> RecommendItemBased ds_one 7 5 CosineSim 3 = Inr []"
proof -
  have h: "map_of (UserRatings ds_one) 7 = None" by (simp add: ds_one_def)
  show ?thesis
    using RecommendItemBased_missing_user [OF h, of 5 CosineSim 3] h by simp
qed

section \<open>The bounded top-N selector\<close>

lemma parent_less: "0 < k \<Longrightarrow> parent k < k"
  by (simp add: parent_def)

lemma parent_eq_iff: "0 < k \<Longrightarrow> parent k = i \<longleftrightarrow> k = 2 * i + 1 \<or> k = 2 * i + 2"
  by (simp add: parent_def) arith

lemma Swap_length [simp]: "length (minHeap_Swap h i j) = length h"
  by (simp add: minHeap_Swap_def)

lemma Swap_nth:
  "i < length h \<Longrightarrow> j < length h \<Longrightarrow> k < length h \<Longrightarrow>
   minHeap_Swap h i j ! k = (if k = j then h ! i else if k = i then h ! j else h ! k)"
  by (simp add: minHeap_Swap_def nth_list_update)

lemma Swap_mset:
  "i < length h \<Longrightarrow> j < length h \<Longrightarrow> mset (minHeap_Swap h i j) = mset h"
  by (simp add: minHeap_Swap_def mset_swap)

lemma up_inv_step:
  assumes inv: "up_inv h j" and ij: "parent j \<noteq> j" and less: "score (h ! j) < score (h ! parent j)"
  shows "up_inv (minHeap_Swap h (parent j) j) (parent j)"
proof -
  let ?i = "parent j"
  let ?h = "minHeap_Swap h ?i j"
  have j0: "0 < j" using ij by (cases j) (simp_all add: parent_def)
  have ilt: "?i < j" using parent_less [OF j0] .
  have jl: "j < length h" using inv by (simp add: up_inv_def)
  have il: "?i < length h" using ilt jl by simp
  have b: "\<And>k. k < length h \<Longrightarrow> 0 < k \<Longrightarrow> k \<noteq> j \<Longrightarrow> score (h ! parent k) \<le> score (h ! k)"
    using inv by (simp add: up_inv_def)
  have c: "\<And>k. k < length h \<Longrightarrow> 0 < k \<Longrightarrow> parent k = j \<Longrightarrow> score (h ! ?i) \<le> score (h ! k)"
    using inv j0 by (simp add: up_inv_def)
  have nth: "\<And>k. k < length h \<Longrightarrow> ?h ! k = (if k = j then h ! ?i else if k = ?i then h ! j else h ! k)"
    using Swap_nth [OF il jl] by simp
  have B: "score (?h ! parent k) \<le> score (?h ! k)" if k: "k < length h" "0 < k" "k \<noteq> ?i" for k
  proof -
    have pk: "parent k < length h" using parent_less [OF k(2)] k(1) by simp
    show ?thesis
    proof (cases "k = j")
      case True
      then show ?thesis using less nth [OF jl] nth [OF il] ilt by simp
    next
      case False
      have hk: "?h ! k = h ! k" using nth [OF k(1)] False k(3) by simp
      consider "parent k = ?i" | "parent k = j" | "parent k \<noteq> ?i" "parent k \<noteq> j" by blast
      then show ?thesis
      proof cases
        case 1
        have "score (h ! j) < score (h ! k)" using less b [OF k(1,2) False] 1 by simp
        then show ?thesis using nth [OF il] ilt 1 hk by simp
      next
        case 2
        have "score (h ! ?i) \<le> score (h ! k)" using c [OF k(1,2) 2] .
        then show ?thesis using nth [OF jl] 2 hk by simp
      next
        case 3
        then show ?thesis using nth [OF pk] hk b [OF k(1,2) False] by simp
      qed
    qed
  qed
  have C: "score (?h ! parent ?i) \<le> score (?h ! k)"
    if k: "k < length h" "0 < k" "parent k = ?i" "0 < ?i" for k
  proof -
    have pi: "parent ?i < ?i" using parent_less [OF k(4)] .
    have pil: "parent ?i < length h" using pi il by simp
    have e: "?h ! parent ?i = h ! parent ?i" using nth [OF pil] pi ilt by simp
    have le: "score (h ! parent ?i) \<le> score (h ! ?i)" using b [OF il k(4)] ilt by simp
    have ki: "k \<noteq> ?i" using parent_less [OF k(2)] k(3) by simp
    show ?thesis
    proof (cases "k = j")
      case True
      then show ?thesis using nth [OF jl] e le by simp
    next
      case False
      have "score (h ! ?i) \<le> score (h ! k)" using b [OF k(1,2) False] k(3) by simp
      then show ?thesis using nth [OF k(1)] False ki e le by simp
    qed
  qed
  show ?thesis
    unfolding up_inv_def using il B C by simp
qed

lemma heap_up_correct:
  "up_inv h j \<Longrightarrow>
   heap_upto (heap_up h j) (length h) \<and> mset (heap_up h j) = mset h
   \<and> length (heap_up h j) = length h"
proof (induction h j rule: heap_up.induct)
  case (1 h j)
  let ?i = "(j - 1) div 2"
  have pi: "?i = parent j" by (simp add: parent_def)
  show ?case
  proof (cases "?i = j \<or> \<not> minHeap_Less h j ?i")
    case True
    have stop: "heap_up h j = h" using True by (subst heap_up.simps) (simp add: Let_def)
    have "heap_upto h (length h)"
      unfolding heap_upto_def
    proof (intro allI impI)
      fix k assume k: "k < length h" "0 < k"
      show "score (h ! parent k) \<le> score (h ! k)"
      proof (cases "k = j")
        case False
        then show ?thesis using "1.prems" k by (simp add: up_inv_def)
      next
        case kj: True
        then have "?i \<noteq> j" using parent_less [OF k(2)] pi by simp
        then have "\<not> minHeap_Less h j ?i" using True by simp
        then show ?thesis using kj pi by (simp add: minHeap_Less_def)
      qed
    qed
    then show ?thesis using stop by simp
  next
    case False
    then have ne: "parent j \<noteq> j" and less: "score (h ! j) < score (h ! parent j)"
      using pi by (simp_all add: minHeap_Less_def)
    have step: "heap_up h j = heap_up (minHeap_Swap h ?i j) ?i"
      using False by (subst heap_up.simps) (simp add: Let_def)
    have inv': "up_inv (minHeap_Swap h ?i j) ?i"
      using up_inv_step [OF "1.prems" ne less] pi by simp
    have jl: "j < length h" using "1.prems" by (simp add: up_inv_def)
    have il: "?i < length h" using jl by (simp add: div_le_dividend le_less_trans less_imp_diff_less)
    from "1.IH" [OF refl False inv']
    show ?thesis
      using step Swap_mset [OF il jl] by simp
  qed
qed

lemma down_inv_step:
  assumes inv: "down_inv h i n" and c1: "2 * i + 1 < n"
    and jdef: "j = (if 2 * i + 1 + 1 < n \<and> score (h ! (2 * i + 1 + 1)) < score (h ! (2 * i + 1))
                    then 2 * i + 1 + 1 else 2 * i + 1)"
    and less: "score (h ! j) < score (h ! i)"
  shows "down_inv (minHeap_Swap h i j) j n"
proof -
  let ?h = "minHeap_Swap h i j"
  have nl: "n \<le> length h" using inv by (simp add: down_inv_def)
  have jn: "j < n" using jdef c1 by (simp split: if_splits)
  have ij: "i < j" using jdef by (simp split: if_splits)
  have j0: "0 < j" using ij by simp
  have pj: "parent j = i" using jdef by (simp add: parent_def split: if_splits)
  have il: "i < length h" and jl: "j < length h" using ij jn nl by simp_all
  have b: "\<And>k. k < n \<Longrightarrow> 0 < k \<Longrightarrow> parent k \<noteq> i \<Longrightarrow> score (h ! parent k) \<le> score (h ! k)"
    using inv by (simp add: down_inv_def)
  have c: "\<And>k. k < n \<Longrightarrow> 0 < k \<Longrightarrow> parent k = i \<Longrightarrow> 0 < i \<Longrightarrow> score (h ! parent i) \<le> score (h ! k)"
    using inv by (simp add: down_inv_def)
  have nth: "\<And>k. k < length h \<Longrightarrow> ?h ! k = (if k = j then h ! i else if k = i then h ! j else h ! k)"
    using Swap_nth [OF il jl] by simp
  have minchild: "score (h ! j) \<le> score (h ! k)" if k: "k < n" "0 < k" "parent k = i" for k
  proof -
    have "k = 2 * i + 1 \<or> k = 2 * i + 2" using parent_eq_iff [OF k(2), of i] k(3) by simp
    then show ?thesis using jdef k(1) by (auto split: if_splits)
  qed
  have B: "score (?h ! parent k) \<le> score (?h ! k)" if k: "k < n" "0 < k" "parent k \<noteq> j" for k
  proof -
    have kl: "k < length h" using k(1) nl by simp
    have pk: "parent k < length h" using parent_less [OF k(2)] kl by simp
    consider "k = j" | "k = i" | "k \<noteq> j" "k \<noteq> i" by blast
    then show ?thesis
    proof cases
      case 1
      then show ?thesis using nth [OF jl] nth [OF il] pj ij less by simp
    next
      case 2
      then have i0: "0 < i" using k(2) by simp
      have pi: "parent i < i" using parent_less [OF i0] .
      have "score (h ! parent i) \<le> score (h ! j)" using c [OF jn j0 pj i0] .
      then show ?thesis using 2 nth [OF il] nth [OF pk] pi ij by simp
    next
      case 3
      have hk: "?h ! k = h ! k" using nth [OF kl] 3 by simp
      show ?thesis
      proof (cases "parent k = i")
        case True
        then show ?thesis using minchild [OF k(1,2) True] nth [OF il] ij hk by simp
      next
        case False
        then show ?thesis using b [OF k(1,2) False] nth [OF pk] k(3) hk by simp
      qed
    qed
  qed
  have C: "score (?h ! parent j) \<le> score (?h ! k)" if k: "k < n" "0 < k" "parent k = j" for k
  proof -
    have kl: "k < length h" using k(1) nl by simp
    have kj: "j < k" using parent_less [OF k(2)] k(3) by simp
    have "parent k \<noteq> i" using k(3) ij by simp
    then have "score (h ! j) \<le> score (h ! k)" using b [OF k(1,2)] k(3) by simp
    then show ?thesis using nth [OF kl] nth [OF il] kj ij pj by simp
  qed
  show ?thesis
    unfolding down_inv_def using nl B C by simp
qed

lemma heap_down_correct:
  "down_inv h i n \<Longrightarrow>
   heap_upto (heap_down h i n) n \<and> mset (heap_down h i n) = mset h
   \<and> length (heap_down h i n) = length h
   \<and> (\<forall>k. n \<le> k \<longrightarrow> heap_down h i n ! k = h ! k)"
proof (induction h i n rule: heap_down.induct)
  case (1 h i n)
  let ?j1 = "2 * i + 1"
  let ?j = "if ?j1 + 1 < n \<and> minHeap_Less h (?j1 + 1) ?j1 then ?j1 + 1 else ?j1"
  have nl: "n \<le> length h" using "1.prems" by (simp add: down_inv_def)
  have b: "\<And>k. k < n \<Longrightarrow> 0 < k \<Longrightarrow> parent k \<noteq> i \<Longrightarrow> score (h ! parent k) \<le> score (h ! k)"
    using "1.prems" by (simp add: down_inv_def)
  show ?case
  proof (cases "?j1 \<ge> n")
    case True
    have stop: "heap_down h i n = h" using True by (subst heap_down.simps) (simp add: Let_def)
    have "heap_upto h n"
      unfolding heap_upto_def
    proof (intro allI impI)
      fix k assume k: "k < n" "0 < k"
      have "parent k \<noteq> i" using parent_eq_iff [OF k(2), of i] k(1) True by auto
      then show "score (h ! parent k) \<le> score (h ! k)" using b [OF k] by simp
    qed
    then show ?thesis using stop by simp
  next
    case False
    then have c1: "?j1 < n" by simp
    show ?thesis
    proof (cases "\<not> minHeap_Less h ?j i")
      case True
      have stop: "heap_down h i n = h"
        using False True by (subst heap_down.simps) (auto simp: Let_def split: if_splits)
      have jmin: "score (h ! i) \<le> score (h ! ?j)" using True by (simp add: minHeap_Less_def)
      have "heap_upto h n"
        unfolding heap_upto_def
      proof (intro allI impI)
        fix k assume k: "k < n" "0 < k"
        show "score (h ! parent k) \<le> score (h ! k)"
        proof (cases "parent k = i")
          case False
          then show ?thesis using b [OF k] by simp
        next
          case pk: True
          have "k = 2 * i + 1 \<or> k = 2 * i + 2" using parent_eq_iff [OF k(2), of i] pk by simp
          then have "score (h ! ?j) \<le> score (h ! k)"
            using k(1) by (auto simp: minHeap_Less_def split: if_splits)
          then show ?thesis using jmin pk by simp
        qed
      qed
      then show ?thesis using stop by simp
    next
      case less: False
      have step: "heap_down h i n = heap_down (minHeap_Swap h i ?j) ?j n"
        using False less by (subst heap_down.simps) (auto simp: Let_def split: if_splits)
      have jd: "?j = (if 2 * i + 1 + 1 < n \<and> score (h ! (2 * i + 1 + 1)) < score (h ! (2 * i + 1))
                    then 2 * i + 1 + 1 else 2 * i + 1)"
        by (simp add: minHeap_Less_def)
      have ls: "score (h ! ?j) < score (h ! i)" using less by (simp add: minHeap_Less_def)
      have inv': "down_inv (minHeap_Swap h i ?j) ?j n"
        by (rule down_inv_step [OF "1.prems" c1 jd ls])
      have jn: "?j < n" using c1 by simp
      have il: "i < length h" and jl: "?j < length h" using c1 jn nl by simp_all
      have out: "\<And>k. n \<le> k \<Longrightarrow> minHeap_Swap h i ?j ! k = h ! k"
      proof -
        fix k assume "n \<le> k"
        then have "k \<noteq> i" "k \<noteq> ?j" using c1 jn by simp_all
        then show "minHeap_Swap h i ?j ! k = h ! k"
          by (simp add: minHeap_Swap_def)
      qed
      from "1.IH" [OF refl False refl less inv']
      show ?thesis
        using step Swap_mset [OF il jl] out by simp
    qed
  qed
qed

lemma heap_min:
  assumes "is_heap h"
  shows "k < length h \<Longrightarrow> score (h ! 0) \<le> score (h ! k)"
proof (induction k rule: less_induct)
  case (less k)
  show ?case
  proof (cases "k = 0")
    case True
    then show ?thesis by simp
  next
    case False
    then have k0: "0 < k" by simp
    have pk: "parent k < k" using parent_less [OF k0] .
    have "score (h ! 0) \<le> score (h ! parent k)"
      using less.IH [OF pk] pk less.prems by simp
    moreover have "score (h ! parent k) \<le> score (h ! k)"
      using assms less.prems k0 by (simp add: is_heap_def heap_upto_def)
    ultimately show ?thesis by simp
  qed
qed

lemma heap_min_set:
  assumes "is_heap h" and "y \<in> set h"
  shows "score (h ! 0) \<le> score y"
  using assms heap_min by (metis in_set_conv_nth)

lemma heap_Push_correct:
  assumes "is_heap h"
  shows "is_heap (heap_Push h x) \<and> mset (heap_Push h x) = add_mset x (mset h)
         \<and> length (heap_Push h x) = Suc (length h)"
proof -
  let ?g = "h @ [x]"
  have inv: "up_inv ?g (length h)"
    unfolding up_inv_def
  proof (intro conjI allI impI)
    show "length h < length ?g" by simp
  next
    fix k assume k: "k < length ?g" "0 < k" "k \<noteq> length h"
    then have kl: "k < length h" by simp
    have pk: "parent k < length h" using parent_less [OF k(2)] kl by simp
    show "score (?g ! parent k) \<le> score (?g ! k)"
      using assms kl pk k(2) by (simp add: nth_append is_heap_def heap_upto_def)
  next
    fix k assume k: "k < length ?g" "0 < k" "parent k = length h"
    then have False using parent_less [OF k(2)] by simp
    then show "score (?g ! parent (length h)) \<le> score (?g ! k)" ..
  qed
  from heap_up_correct [OF inv]
  show ?thesis by (simp add: heap_Push_def is_heap_def)
qed

lemma heap_Pop_correct:
  assumes hp: "is_heap h" and ne: "h \<noteq> []"
  shows "\<exists>x h'. heap_Pop h = Inr (x, h') \<and> is_heap h' \<and> mset h = add_mset x (mset h')
           \<and> length h' = length h - 1 \<and> (\<forall>y\<in>set h. score x \<le> score y)"
proof -
  let ?n = "length h - 1"
  let ?h1 = "minHeap_Swap h 0 ?n"
  let ?h2 = "heap_down ?h1 0 ?n"
  have l0: "0 < length h" and nl: "?n < length h" using ne by simp_all
  have nth1: "\<And>k. k < length h \<Longrightarrow>
                ?h1 ! k = (if k = ?n then h ! 0 else if k = 0 then h ! ?n else h ! k)"
    using Swap_nth [OF l0 nl] by simp
  have inv: "down_inv ?h1 0 ?n"
    unfolding down_inv_def
  proof (intro conjI allI impI)
    show "?n \<le> length ?h1" by simp
  next
    fix k assume k: "k < ?n" "0 < k" "parent k \<noteq> 0"
    have kl: "k < length h" using k(1) by simp
    have pk: "parent k < k" using parent_less [OF k(2)] .
    have pkl: "parent k < length h" using pk kl by simp
    have "score (h ! parent k) \<le> score (h ! k)"
      using hp kl k(2) by (simp add: is_heap_def heap_upto_def)
    then show "score (?h1 ! parent k) \<le> score (?h1 ! k)"
      using nth1 [OF kl] nth1 [OF pkl] k pk by simp
  next
    fix k assume "(0::nat) < 0"
    then show "score (?h1 ! parent 0) \<le> score (?h1 ! k)" by simp
  qed
  from heap_down_correct [OF inv]
  have d: "heap_upto ?h2 ?n" "mset ?h2 = mset ?h1" "length ?h2 = length h"
          "?h2 ! ?n = ?h1 ! ?n"
    by simp_all
  have ne2: "?h2 \<noteq> []" using d(3) ne by auto
  have lst: "last ?h2 = h ! 0"
    using d(3,4) nth1 [OF nl] ne2 by (simp add: last_conv_nth)
  have pop: "heap_Pop h = Inr (last ?h2, butlast ?h2)"
    using ne by (simp add: heap_Pop_def Let_def)
  have hb: "is_heap (butlast ?h2)"
    unfolding is_heap_def heap_upto_def
  proof (intro allI impI)
    fix k assume k: "k < length (butlast ?h2)" "0 < k"
    then have kn: "k < ?n" using d(3) by simp
    have pk: "parent k < k" using parent_less [OF k(2)] .
    have "score (?h2 ! parent k) \<le> score (?h2 ! k)"
      using d(1) kn k(2) by (simp add: heap_upto_def)
    then show "score (butlast ?h2 ! parent k) \<le> score (butlast ?h2 ! k)"
      using k(1) pk by (simp add: nth_butlast)
  qed
  have "mset ?h2 = add_mset (last ?h2) (mset (butlast ?h2))"
    using ne2 by (metis append_butlast_last_id mset.simps(2) mset_append union_mset_add_mset_right add.right_neutral mset.simps(1))
  then have ms: "mset h = add_mset (last ?h2) (mset (butlast ?h2))"
    using d(2) Swap_mset [OF l0 nl] by simp
  have mn: "\<forall>y\<in>set h. score (last ?h2) \<le> score y"
    using heap_min_set [OF hp] lst by simp
  show ?thesis
    using pop hb ms mn d(3) by simp
qed

lemma topN_offer_correct:
  assumes "0 < N" and "is_heap h" and "length h \<le> N"
    and "\<forall>d\<in>#D. \<forall>y\<in>set h. score d \<le> score y"
    and "length h < N \<longrightarrow> D = {#}"
  shows "\<exists>h' D'. topN_offer xs (int N) h = Inr h' \<and> is_heap h'
           \<and> length h' = min N (length h + length xs)
           \<and> mset h' + D' = mset h + D + mset (map nb_of xs)
           \<and> (\<forall>d\<in>#D'. \<forall>y\<in>set h'. score d \<le> score y)"
  using assms
proof (induction xs arbitrary: h D)
  case Nil
  then show ?case by auto
next
  case (Cons p rest)
  obtain k sc where p: "p = (k, sc)" by (cases p)
  let ?x = "\<lparr>id_nb = k, score = sc\<rparr>"
  have nbx: "nb_of p = ?x" by (simp add: nb_of_def p)
  show ?case
  proof (cases "length h < N")
    case True
    let ?h1 = "heap_Push h ?x"
    note P = heap_Push_correct [OF Cons.prems(2), of ?x]
    have D0: "D = {#}" using True Cons.prems(5) by simp
    have a3: "length ?h1 \<le> N" using P True by simp
    have a4: "\<forall>d\<in>#D. \<forall>y\<in>set ?h1. score d \<le> score y" using D0 by simp
    have a5: "length ?h1 < N \<longrightarrow> D = {#}" using D0 by simp
    from Cons.IH [OF Cons.prems(1) P [THEN conjunct1] a3 a4 a5]
    obtain h' D' where r: "topN_offer rest (int N) ?h1 = Inr h'" "is_heap h'"
        "length h' = min N (length ?h1 + length rest)"
        "mset h' + D' = mset ?h1 + D + mset (map nb_of rest)"
        "\<forall>d\<in>#D'. \<forall>y\<in>set h'. score d \<le> score y"
      by blast
    have "topN_offer (p # rest) (int N) h = Inr h'"
      using True r(1) by (simp add: p)
    moreover have "length h' = min N (length h + length (p # rest))"
      using r(3) P by simp
    moreover have "mset h' + D' = mset h + D + mset (map nb_of (p # rest))"
      using r(4) P nbx by simp
    ultimately show ?thesis using r(2,5) by blast
  next
    case False
    then have full: "length h = N" using Cons.prems(3) by simp
    then have ne: "h \<noteq> []" using Cons.prems(1) by auto
    have idx: "index h 0 = Inr (h ! 0)" using ne by (simp add: index_def)
    have nlt: "\<not> int (length h) < int N" using full by simp
    show ?thesis
    proof (cases "sc > score (h ! 0)")
      case True
      from heap_Pop_correct [OF Cons.prems(2) ne]
      obtain m h2 where pop: "heap_Pop h = Inr (m, h2)" "is_heap h2"
          "mset h = add_mset m (mset h2)" "length h2 = length h - 1"
          "\<forall>y\<in>set h. score m \<le> score y"
        by blast
      let ?h3 = "heap_Push h2 ?x"
      note P = heap_Push_correct [OF pop(2), of ?x]
      have sub: "set h2 \<subseteq> set h"
        using pop(3) by (metis mset_subset_eq_add_mset_cancel set_mset_mono set_mset_mset
            subset_mset.order_refl mset_subset_eq_add_left add_mset_add_single)
      have h0: "h ! 0 \<in> set h" using ne by simp
      have mle: "score m < sc" using pop(5) h0 True by fastforce
      have mh: "m \<in> set h" using pop(3) by (metis set_mset_mset union_single_eq_member)
      have set3: "set ?h3 = insert ?x (set h2)"
        using P by (metis set_mset_mset set_mset_add_mset_insert)
      have a3: "length ?h3 \<le> N" using P pop(4) full Cons.prems(1) by simp
      have a4: "\<forall>d\<in>#add_mset m D. \<forall>y\<in>set ?h3. score d \<le> score y"
      proof (intro ballI)
        fix d y assume d: "d \<in># add_mset m D" and y: "y \<in> set ?h3"
        have dm: "score d \<le> score m"
        proof (cases "d = m")
          case True then show ?thesis by simp
        next
          case False
          then have "d \<in># D" using d by simp
          then show ?thesis using Cons.prems(4) mh by blast
        qed
        show "score d \<le> score y"
        proof (cases "y = ?x")
          case True
          then show ?thesis using dm mle by simp
        next
          case False
          then have "y \<in> set h" using y set3 sub by auto
          then show ?thesis using dm pop(5) by fastforce
        qed
      qed
      have a5: "length ?h3 < N \<longrightarrow> add_mset m D = {#}"
        using P pop(4) full Cons.prems(1) by simp
      from Cons.IH [OF Cons.prems(1) P [THEN conjunct1] a3 a4 a5]
      obtain h' D' where r: "topN_offer rest (int N) ?h3 = Inr h'" "is_heap h'"
          "length h' = min N (length ?h3 + length rest)"
          "mset h' + D' = mset ?h3 + add_mset m D + mset (map nb_of rest)"
          "\<forall>d\<in>#D'. \<forall>y\<in>set h'. score d \<le> score y"
        by blast
      have "topN_offer (p # rest) (int N) h = Inr h'"
        using nlt True r(1) by (simp add: p idx pop(1))
      moreover have "length h' = min N (length h + length (p # rest))"
        using r(3) P pop(4) full Cons.prems(1) by simp
      moreover have "mset h' + D' = mset h + D + mset (map nb_of (p # rest))"
        using r(4) P pop(3) nbx by simp
      ultimately show ?thesis using r(2,5) by blast
    next
      case False
      have a4: "\<forall>d\<in>#add_mset ?x D. \<forall>y\<in>set h. score d \<le> score y"
      proof (intro ballI)
        fix d y assume d: "d \<in># add_mset ?x D" and y: "y \<in> set h"
        show "score d \<le> score y"
        proof (cases "d = ?x")
          case True
          have "score (h ! 0) \<le> score y" using heap_min_set [OF Cons.prems(2) y] .
          then show ?thesis using True False by simp
        next
          case dx: False
          then have "d \<in># D" using d by simp
          then show ?thesis using Cons.prems(4) y by blast
        qed
      qed
      have a5: "length h < N \<longrightarrow> add_mset ?x D = {#}" using full by simp
      from Cons.IH [OF Cons.prems(1,2,3) a4 a5]
      obtain h' D' where r: "topN_offer rest (int N) h = Inr h'" "is_heap h'"
          "length h' = min N (length h + length rest)"
          "mset h' + D' = mset h + add_mset ?x D + mset (map nb_of rest)"
          "\<forall>d\<in>#D'. \<forall>y\<in>set h'. score d \<le> score y"
        by blast
      have "topN_offer (p # rest) (int N) h = Inr h'"
        using nlt False r(1) by (simp add: p idx)
      moreover have "length h' = min N (length h + length (p # rest))"
        using r(3) full by simp
      moreover have "mset h' + D' = mset h + D + mset (map nb_of (p # rest))"
        using r(4) nbx by simp
      ultimately show ?thesis using r(2,5) by blast
    qed
  qed
qed

lemma topN_drain_correct:
  "is_heap h \<Longrightarrow> length h = i \<Longrightarrow> i \<le> length res \<Longrightarrow>
   \<exists>r. topN_drain i res h = Inr (r @ drop i res) \<and> length r = i \<and> mset r = mset h
       \<and> sorted_wrt (\<lambda>a b. score a \<ge> score b) r"
proof (induction i arbitrary: h res)
  case 0
  then show ?case by simp
next
  case (Suc i)
  then have ne: "h \<noteq> []" by auto
  from heap_Pop_correct [OF Suc.prems(1) ne]
  obtain x h' where pop: "heap_Pop h = Inr (x, h')" "is_heap h'"
      "mset h = add_mset x (mset h')" "length h' = length h - 1"
      "\<forall>y\<in>set h. score x \<le> score y"
    by blast
  have l': "length h' = i" using pop(4) Suc.prems(2) by simp
  have il: "i < length res" using Suc.prems(3) by simp
  have l1: "i \<le> length (res[i := x])" using il by simp
  from Suc.IH [OF pop(2) l' l1]
  obtain r where r: "topN_drain i (res[i := x]) h' = Inr (r @ drop i (res[i := x]))"
      "length r = i" "mset r = mset h'" "sorted_wrt (\<lambda>a b. score a \<ge> score b) r"
    by blast
  have dr: "drop i (res[i := x]) = x # drop (Suc i) res"
    using il by (metis Cons_nth_drop_Suc drop_update_cancel length_list_update lessI
        nth_list_update_eq)
  have sub: "set r \<subseteq> set h"
    using r(3) pop(3) by (metis mset_eq_setD set_mset_mset set_mset_add_mset_insert subset_insertI)
  have srt: "sorted_wrt (\<lambda>a b. score a \<ge> score b) (r @ [x])"
    using r(4) sub pop(5) by (auto simp: sorted_wrt_append)
  have "topN_drain (Suc i) res h = Inr ((r @ [x]) @ drop (Suc i) res)"
    using r(1) dr by (simp add: pop(1))
  moreover have "length (r @ [x]) = Suc i" using r(2) by simp
  moreover have "mset (r @ [x]) = mset h" using r(3) pop(3) by simp
  ultimately show ?case using srt by blast
qed

text \<open>
  C4. For every score map, listed in any order, and every \<open>n \<ge> 1\<close>,
  \<open>topNneighborsFromScores\<close> returns without panic a list of exactly
  \<open>min(n, number of entries)\<close> neighbours, in descending order of score, taken from the
  map, such that no entry left out has a score greater than the score of a returned entry.
\<close>

theorem topNneighborsFromScores_top_n:
  assumes "1 \<le> n"
  shows "\<exists>res. topNneighborsFromScores scores n = Inr res
           \<and> length res = min (nat n) (length scores)
           \<and> sorted_wrt (\<lambda>a b. score a \<ge> score b) res
           \<and> mset res \<subseteq># mset (map nb_of scores)
           \<and> (\<forall>d\<in>#(mset (map nb_of scores) - mset res). \<forall>y\<in>set res. score d \<le> score y)"
proof -
  let ?N = "nat n"
  have n: "int ?N = n" and N0: "0 < ?N" using assms by simp_all
  have e: "is_heap []" by (simp add: is_heap_def heap_upto_def)
  from topN_offer_correct [OF N0 e, of "{#}" scores]
  obtain h D' where o: "topN_offer scores n [] = Inr h" "is_heap h"
      "length h = min ?N (length scores)"
      "mset h + D' = mset (map nb_of scores)"
      "\<forall>d\<in>#D'. \<forall>y\<in>set h. score d \<le> score y"
    using n by auto
  from topN_drain_correct [OF o(2) refl, of "replicate (length h) \<lparr>id_nb = 0, score = 0\<rparr>"]
  obtain r where r: "topN_drain (length h) (replicate (length h) \<lparr>id_nb = 0, score = 0\<rparr>) h = Inr r"
      "length r = length h" "mset r = mset h" "sorted_wrt (\<lambda>a b. score a \<ge> score b) r"
    by auto
  have res: "topNneighborsFromScores scores n = Inr r"
    by (simp add: topNneighborsFromScores_def o(1) r(1))
  have sub: "mset r \<subseteq># mset (map nb_of scores)"
    using o(4) r(3) by (metis mset_subset_eq_add_left)
  have diff: "mset (map nb_of scores) - mset r = D'"
    using o(4) r(3) by (metis add_diff_cancel_left')
  have set: "set r = set h" using r(3) by (rule mset_eq_setD)
  show ?thesis
    using res r(2,4) o(3,5) sub diff set by auto
qed

theorem topNneighborsFromScores_top_n_witness:
  "(1::int) \<le> 3
   \<and> (\<exists>res. topNneighborsFromScores [(1, 5), (2, 3), (3, 9), (4, 7), (5, 1), (6, 8)] 3 = Inr res
         \<and> length res = 3
         \<and> sorted_wrt (\<lambda>a b. score a \<ge> score b) res)
   \<and> topNneighborsFromScores [(1, 5), (2, 3), (3, 9), (4, 7), (5, 1), (6, 8)] 3
        = Inr [\<lparr>id_nb = 3, score = 9\<rparr>, \<lparr>id_nb = 6, score = 8\<rparr>, \<lparr>id_nb = 4, score = 7\<rparr>]"
proof -
  have h: "(1::int) \<le> 3" by simp
  from topNneighborsFromScores_top_n [OF h, of "[(1, 5), (2, 3), (3, 9), (4, 7), (5, 1), (6, 8)]"]
  have a: "\<exists>res. topNneighborsFromScores [(1, 5), (2, 3), (3, 9), (4, 7), (5, 1), (6, 8)] 3 = Inr res
         \<and> length res = 3
         \<and> sorted_wrt (\<lambda>a b. score a \<ge> score b) res"
    by auto
  have b: "topNneighborsFromScores [(1, 5), (2, 3), (3, 9), (4, 7), (5, 1), (6, 8)] 3
        = Inr [\<lparr>id_nb = 3, score = 9\<rparr>, \<lparr>id_nb = 6, score = 8\<rparr>, \<lparr>id_nb = 4, score = 7\<rparr>]"
    by (simp add: topNneighborsFromScores_def heap_Push_def heap_Pop_def index_def
        minHeap_Less_def minHeap_Swap_def heap_up.simps heap_down.simps)
  show ?thesis using h a b by blast
qed

end
